theory Spec2Isabelle
  imports Complex_Main
begin

section \<open>The world the script runs in\<close>

text \<open>
  The transcription logic of \<^verbatim>\<open>project1.2.py\<close> is four functions: \<^verbatim>\<open>safe_delete\<close>,
  \<^verbatim>\<open>split_audio\<close>, \<^verbatim>\<open>transcribe_chunk\<close> and \<^verbatim>\<open>process_long_audio\<close>. They act on the
  disk, on the Streamlit page, on the clock and on the remote speech service. The
  model threads a \<open>world\<close> through every call: the files on disk and the ordered trace
  of the effects performed so far. What the outside answers (whether a file decodes,
  whether an unlink is refused, what the service replies) is not decided by the script;
  it is given by an \<open>env\<close> of oracles, and every theorem quantifies over all of them.

  A value of \<open>exn\<close> is an instance of Python's \<^verbatim>\<open>Exception\<close>: what both
  \<^verbatim>\<open>except Exception\<close> and a bare \<^verbatim>\<open>except:\<close> catch. A call that may raise returns
  \<open>exn + 'a\<close>, with \<open>Inl\<close> the exception raised, and the world as it is at that moment.

  What is taken for granted: the calls that only show something on the page
  (\<^verbatim>\<open>st.warning\<close>, \<^verbatim>\<open>st.error\<close>, \<^verbatim>\<open>st.progress\<close>, \<^verbatim>\<open>st.empty\<close>) and \<^verbatim>\<open>gc.collect\<close>
  do not raise; nobody else changes the disk during the run; the sound is seen at the
  granularity of one millisecond, which is what \<^verbatim>\<open>len\<close> and slicing of an
  \<^verbatim>\<open>AudioSegment\<close> count in. \<^verbatim>\<open>time.sleep\<close> does raise on a length it cannot hold, and
  the backoff of \<^verbatim>\<open>transcribe_chunk\<close> reaches such lengths; the one second slept by
  \<^verbatim>\<open>safe_delete\<close> is far below them.
\<close>

type_synonym path = string

text \<open>A loaded \<^verbatim>\<open>AudioSegment\<close>: one element per millisecond, so that \<^verbatim>\<open>len(audio)\<close> is
  the duration in ms and \<^verbatim>\<open>audio[i:j]\<close> is the window of milliseconds from i to j.\<close>

type_synonym audio = "int list"

datatype exn =
  PermissionError | FileNotFoundError | ValueError | OverflowError | OtherError string

text \<open>The texts shown on the page, one constructor per f-string of the source.\<close>

datatype msg =
    CouldntDelete path      \<comment> \<open>\<^verbatim>\<open>Couldn't delete temporary file: {file_path}\<close>\<close>
  | ErrorDeleting exn       \<comment> \<open>\<^verbatim>\<open>Error deleting file: {str(e)}\<close>\<close>
  | ErrorSplitting exn      \<comment> \<open>\<^verbatim>\<open>Error splitting audio: {str(e)}\<close>\<close>
  | RetryingIn int          \<comment> \<open>\<^verbatim>\<open>Retrying chunk in {wait_time}s...\<close>\<close>
  | ChunkFailed exn         \<comment> \<open>\<^verbatim>\<open>Chunk failed: {str(e)}\<close>\<close>
  | ProcessingError exn     \<comment> \<open>\<^verbatim>\<open>Processing error: {str(e)}\<close>\<close>

datatype event =
    StWarning msg           \<comment> \<open>\<^verbatim>\<open>st.warning\<close>\<close>
  | StError msg             \<comment> \<open>\<^verbatim>\<open>st.error\<close>\<close>
  | NewProgressBar          \<comment> \<open>\<^verbatim>\<open>st.progress(0)\<close>\<close>
  | NewStatusText           \<comment> \<open>\<^verbatim>\<open>st.empty()\<close>\<close>
  | SetProgress nat nat     \<comment> \<open>progress set to \<^verbatim>\<open>(i + 1) / len(chunks)\<close>, kept as the two numbers\<close>
  | StatusText nat nat      \<comment> \<open>\<^verbatim>\<open>Processing chunk {i+1}/{len(chunks)}\<close>\<close>
  | TempFile path           \<comment> \<open>\<^verbatim>\<open>NamedTemporaryFile\<close> created this file\<close>
  | Export path             \<comment> \<open>\<^verbatim>\<open>chunk.export\<close> called on this path\<close>
  | Submit path int         \<comment> \<open>the file's bytes sent to the service, with the attempt number\<close>
  | Unlink path             \<comment> \<open>\<^verbatim>\<open>os.unlink\<close> called on this path\<close>
  | GcCollect               \<comment> \<open>\<^verbatim>\<open>gc.collect()\<close>\<close>
  | Sleep int               \<comment> \<open>\<^verbatim>\<open>time.sleep\<close>, in seconds\<close>

record world =
  files :: "path \<rightharpoonup> audio"    \<comment> \<open>the files on disk and the sound each holds\<close>
  trace :: "event list"         \<comment> \<open>the effects so far, oldest first\<close>

record env =
  from_file :: "path \<Rightarrow> exn + audio"
    \<comment> \<open>\<^verbatim>\<open>AudioSegment.from_file\<close>: the decoded sound, or the exception it raises\<close>
  new_temp :: "nat \<Rightarrow> exn + path"
    \<comment> \<open>\<^verbatim>\<open>NamedTemporaryFile(suffix=".mp3", delete=False)\<close> in iteration i of the loop\<close>
  export_error :: "path \<Rightarrow> exn option"
    \<comment> \<open>the exception \<^verbatim>\<open>chunk.export\<close> raises when writing to this path, if any\<close>
  api_create :: "path \<Rightarrow> audio \<Rightarrow> int \<Rightarrow> exn + string"
    \<comment> \<open>\<^verbatim>\<open>client.audio.transcriptions.create\<close> on (file name, content), by attempt number\<close>
  unlink_error :: "path \<Rightarrow> nat \<Rightarrow> exn option"
    \<comment> \<open>the exception \<^verbatim>\<open>os.unlink\<close> raises on an existing file: first call (0), retry (1)\<close>

definition emit :: "event \<Rightarrow> world \<Rightarrow> world" where
  "emit e w = w\<lparr>trace := trace w @ [e]\<rparr>"

section \<open>Temporary files: \<^verbatim>\<open>safe_delete\<close>\<close>

text \<open>\<^verbatim>\<open>os.unlink(p)\<close>: a missing file raises, an existing one is removed unless the
  system refuses.\<close>

definition os_unlink :: "env \<Rightarrow> path \<Rightarrow> nat \<Rightarrow> world \<Rightarrow> (exn + unit) \<times> world" where
  "os_unlink E p k w =
     (let w1 = emit (Unlink p) w in
      if files w1 p = None then (Inl FileNotFoundError, w1)
      else (case unlink_error E p k of
              Some e \<Rightarrow> (Inl e, w1)
            | None \<Rightarrow> (Inr (), w1\<lparr>files := (files w1)(p := None)\<rparr>)))"

text \<open>
  \<^verbatim>\<open>
  def safe_delete(file_path):
      try:
          if os.path.exists(file_path):
              os.unlink(file_path)
              return True
      except PermissionError:
          gc.collect()
          time.sleep(1)
          try:
              os.unlink(file_path)
              return True
          except:
              st.warning(f"Couldn't delete temporary file: {file_path}")
              return False
      except Exception as e:
          st.warning(f"Error deleting file: {str(e)}")
          return False
      return False
  \<close>
\<close>

definition safe_delete :: "env \<Rightarrow> path \<Rightarrow> world \<Rightarrow> (exn + bool) \<times> world" where
  "safe_delete E file_path w =
     (if files w file_path \<noteq> None then
        (case os_unlink E file_path 0 w of
           (Inr u, w1) \<Rightarrow> (Inr True, w1)
         | (Inl e, w1) \<Rightarrow>
             if e = PermissionError then
               (let w2 = emit (Sleep 1) (emit GcCollect w1) in
                case os_unlink E file_path 1 w2 of
                  (Inr u, w3) \<Rightarrow> (Inr True, w3)
                | (Inl e2, w3) \<Rightarrow> (Inr False, emit (StWarning (CouldntDelete file_path)) w3))
             else (Inr False, emit (StWarning (ErrorDeleting e)) w1))
      else (Inr False, w))"

section \<open>Segmenting: \<^verbatim>\<open>split_audio\<close>\<close>

text \<open>\<^verbatim>\<open>range(start, stop, step)\<close> as a list; a zero step raises \<^verbatim>\<open>ValueError\<close>.\<close>

function range_from :: "int \<Rightarrow> int \<Rightarrow> int \<Rightarrow> int list" where
  "range_from i stop step =
     (if (0 < step \<and> i < stop) \<or> (step < 0 \<and> stop < i)
      then i # range_from (i + step) stop step else [])"
  by pat_completeness auto
termination
  by (relation "measure (\<lambda>(i, stop, step). nat (if 0 < step then stop - i else i - stop))") auto

declare range_from.simps [simp del]

definition py_range :: "int \<Rightarrow> int \<Rightarrow> int \<Rightarrow> exn + int list" where
  "py_range start stop step =
     (if step = 0 then Inl ValueError else Inr (range_from start stop step))"

text \<open>\<^verbatim>\<open>audio[i:j]\<close> for \<open>0 \<le> i\<close>, the only indices \<^verbatim>\<open>split_audio\<close> produces: both ends are
  clamped to the duration, nothing is padded.\<close>

definition slice_ms :: "audio \<Rightarrow> int \<Rightarrow> int \<Rightarrow> audio" where
  "slice_ms a i j =
     (let start = min (nat i) (length a); stop = min (nat j) (length a)
      in take (stop - start) (drop start a))"

text \<open>
  \<^verbatim>\<open>
  def split_audio(file_path, chunk_minutes=2):
      try:
          audio = AudioSegment.from_file(file_path)
          chunk_ms = chunk_minutes * 60 * 1000
          return [audio[i:i+chunk_ms] for i in range(0, len(audio), chunk_ms)]
      except Exception as e:
          st.error(f"Error splitting audio: {str(e)}")
          return []
  \<close>
\<close>

definition split_audio :: "env \<Rightarrow> path \<Rightarrow> int \<Rightarrow> world \<Rightarrow> (exn + audio list) \<times> world" where
  "split_audio E file_path chunk_minutes w =
     (case from_file E file_path of
        Inl e \<Rightarrow> (Inr [], emit (StError (ErrorSplitting e)) w)
      | Inr a \<Rightarrow>
          (let chunk_ms = chunk_minutes * 60 * 1000 in
           case py_range 0 (int (length a)) chunk_ms of
             Inl e \<Rightarrow> (Inr [], emit (StError (ErrorSplitting e)) w)
           | Inr starts \<Rightarrow> (Inr (map (\<lambda>i. slice_ms a i (i + chunk_ms)) starts), w)))"

section \<open>One chunk: \<^verbatim>\<open>transcribe_chunk\<close>\<close>

text \<open>One pass through the \<^verbatim>\<open>try\<close> body: open the chunk file, read it, send it.
  A file that is not there makes \<^verbatim>\<open>open\<close> raise before anything is sent.\<close>

definition submit :: "env \<Rightarrow> path \<Rightarrow> int \<Rightarrow> world \<Rightarrow> (exn + string) \<times> world" where
  "submit E chunk_file attempt w =
     (case files w chunk_file of
        None \<Rightarrow> (Inl FileNotFoundError, w)
      | Some bytes \<Rightarrow> (api_create E chunk_file bytes attempt, emit (Submit chunk_file attempt) w))"

text \<open>
  \<^verbatim>\<open>time.sleep(secs)\<close> on an integer. The interpreter keeps the length in nanoseconds in a
  signed 64-bit number: a length of more than \<open>(2^63 - 1) div 10^9 = 9223372036\<close> seconds
  raises \<^verbatim>\<open>OverflowError\<close> (timestamp too large), a negative one \<^verbatim>\<open>ValueError\<close>, and nothing
  is slept.
\<close>

definition max_sleep :: int where
  "max_sleep = 9223372036"

definition time_sleep :: "int \<Rightarrow> world \<Rightarrow> (exn + unit) \<times> world" where
  "time_sleep secs w =
     (if max_sleep < \<bar>secs\<bar> then (Inl OverflowError, w)
      else if secs < 0 then (Inl ValueError, w)
      else (Inr (), emit (Sleep secs) w))"

text \<open>
  \<^verbatim>\<open>
  def transcribe_chunk(chunk_file, retries=3):
      for attempt in range(retries):
          try:
              with open(chunk_file, 'rb') as f:
                  return client.audio.transcriptions.create(
                      file=(chunk_file, f.read()),
                      model="whisper-large-v3-turbo",
                      response_format="text")
          except Exception as e:
              if attempt < retries - 1:
                  wait_time = 5 * (2 ** attempt)
                  st.warning(f"Retrying chunk in {wait_time}s...")
                  time.sleep(wait_time)
              else:
                  st.error(f"Chunk failed: {str(e)}")
                  return ""
      return ""
  \<close>
  The loop runs over the attempts still to make; the empty list is the fall out of the
  loop to the last \<^verbatim>\<open>return ""\<close>. The sleep stands in the \<^verbatim>\<open>except\<close> block, with no handler
  around it: what it raises leaves \<^verbatim>\<open>transcribe_chunk\<close>.
\<close>

fun attempts :: "env \<Rightarrow> path \<Rightarrow> int \<Rightarrow> int list \<Rightarrow> world \<Rightarrow> (exn + string) \<times> world" where
  "attempts E chunk_file retries [] w = (Inr [], w)"
| "attempts E chunk_file retries (attempt # rest) w =
     (case submit E chunk_file attempt w of
        (Inr text, w1) \<Rightarrow> (Inr text, w1)
      | (Inl e, w1) \<Rightarrow>
          if attempt < retries - 1 then
            (let wait_time = 5 * 2 ^ nat attempt;
                 w2 = emit (StWarning (RetryingIn wait_time)) w1
             in case time_sleep wait_time w2 of
                  (Inl e2, w3) \<Rightarrow> (Inl e2, w3)
                | (Inr u, w3) \<Rightarrow> attempts E chunk_file retries rest w3)
          else (Inr [], emit (StError (ChunkFailed e)) w1))"

definition transcribe_chunk :: "env \<Rightarrow> path \<Rightarrow> int \<Rightarrow> world \<Rightarrow> (exn + string) \<times> world" where
  "transcribe_chunk E chunk_file retries w =
     attempts E chunk_file retries (range_from 0 retries 1) w"

section \<open>The job: \<^verbatim>\<open>process_long_audio\<close>\<close>

text \<open>\<^verbatim>\<open>sep.join(xs)\<close>.\<close>

fun join :: "string \<Rightarrow> string list \<Rightarrow> string" where
  "join sep [] = []"
| "join sep [x] = x"
| "join sep (x # y # ys) = x @ sep @ join sep (y # ys)"

definition paragraph_sep :: string where
  "paragraph_sep = [CHR 0x0A, CHR 0x0A]"

text \<open>\<^verbatim>\<open>enumerate(chunks)\<close>.\<close>

definition py_enumerate :: "'a list \<Rightarrow> (nat \<times> 'a) list" where
  "py_enumerate xs = zip [0..<length xs] xs"

text \<open>\<^verbatim>\<open>with tempfile.NamedTemporaryFile(suffix=".mp3", delete=False) as temp_file\<close>:
  the file exists, empty, once the call returns; it stays on disk when the block is left.\<close>

definition named_temporary_file :: "env \<Rightarrow> nat \<Rightarrow> world \<Rightarrow> (exn + path) \<times> world" where
  "named_temporary_file E i w =
     (case new_temp E i of
        Inl e \<Rightarrow> (Inl e, w)
      | Inr p \<Rightarrow> (Inr p, emit (TempFile p) (w\<lparr>files := (files w)(p \<mapsto> [])\<rparr>)))"

text \<open>\<^verbatim>\<open>chunk.export(temp_path, format="mp3", bitrate="64k")\<close>; the encoding is not
  modelled, the file holds the chunk.\<close>

definition export :: "env \<Rightarrow> audio \<Rightarrow> path \<Rightarrow> world \<Rightarrow> (exn + unit) \<times> world" where
  "export E chunk temp_path w =
     (let w1 = emit (Export temp_path) w in
      case export_error E temp_path of
        Some e \<Rightarrow> (Inl e, w1)
      | None \<Rightarrow> (Inr (), w1\<lparr>files := (files w1)(temp_path \<mapsto> chunk)\<rparr>))"

text \<open>
  The body of the \<^verbatim>\<open>for\<close> loop, over what \<^verbatim>\<open>enumerate(chunks)\<close> still holds; \<open>n\<close> is
  \<^verbatim>\<open>len(chunks)\<close> and \<open>full_transcript\<close> the list built so far. An exception leaves the
  loop at once, with the world as it is at that moment.
  \<^verbatim>\<open>
        for i, chunk in enumerate(chunks):
            progress = (i + 1) / len(chunks)
            st.session_state.progress = progress
            progress_bar.progress(progress)
            status_text.text(f"Processing chunk {i+1}/{len(chunks)}")
            with tempfile.NamedTemporaryFile(suffix=".mp3", delete=False) as temp_file:
                temp_path = temp_file.name
                chunk.export(temp_path, format="mp3", bitrate="64k")
            transcript = transcribe_chunk(temp_path)
            full_transcript.append(transcript)
            safe_delete(temp_path)
  \<close>
\<close>

fun chunk_loop ::
  "env \<Rightarrow> nat \<Rightarrow> (nat \<times> audio) list \<Rightarrow> string list \<Rightarrow> world \<Rightarrow> (exn + string list) \<times> world" where
  "chunk_loop E n [] full_transcript w = (Inr full_transcript, w)"
| "chunk_loop E n ((i, chunk) # rest) full_transcript w =
     (let w1 = emit (StatusText (i + 1) n) (emit (SetProgress (i + 1) n) w) in
      case named_temporary_file E i w1 of
        (Inl e, w2) \<Rightarrow> (Inl e, w2)
      | (Inr temp_path, w2) \<Rightarrow>
          (case export E chunk temp_path w2 of
             (Inl e, w3) \<Rightarrow> (Inl e, w3)
           | (Inr u, w3) \<Rightarrow>
               (case transcribe_chunk E temp_path 3 w3 of
                  (Inl e, w4) \<Rightarrow> (Inl e, w4)
                | (Inr transcript, w4) \<Rightarrow>
                    (case safe_delete E temp_path w4 of
                       (Inl e, w5) \<Rightarrow> (Inl e, w5)
                     | (Inr b, w5) \<Rightarrow>
                         chunk_loop E n rest (full_transcript @ [transcript]) w5))))"

text \<open>
  The \<^verbatim>\<open>try\<close> block of \<^verbatim>\<open>process_long_audio\<close>:
  \<^verbatim>\<open>
        chunks = split_audio(file_path)
        if not chunks:
            return ""
        full_transcript = []
        progress_bar = st.progress(0)
        status_text = st.empty()
        for i, chunk in enumerate(chunks): ...
        return "\n\n".join(full_transcript)
  \<close>
\<close>

definition process_body :: "env \<Rightarrow> path \<Rightarrow> world \<Rightarrow> (exn + string) \<times> world" where
  "process_body E file_path w =
     (case split_audio E file_path 2 w of
        (Inl e, w1) \<Rightarrow> (Inl e, w1)
      | (Inr chunks, w1) \<Rightarrow>
          if chunks = [] then (Inr [], w1)
          else
            (let w2 = emit NewStatusText (emit NewProgressBar w1) in
             case chunk_loop E (length chunks) (py_enumerate chunks) [] w2 of
               (Inl e, w3) \<Rightarrow> (Inl e, w3)
             | (Inr full_transcript, w3) \<Rightarrow> (Inr (join paragraph_sep full_transcript), w3)))"

text \<open>
  \<^verbatim>\<open>
  def process_long_audio(file_path):
      try:
          ...
      except Exception as e:
          st.error(f"Processing error: {str(e)}")
          return ""
  \<close>
\<close>

definition process_long_audio :: "env \<Rightarrow> path \<Rightarrow> world \<Rightarrow> (exn + string) \<times> world" where
  "process_long_audio E file_path w =
     (case process_body E file_path w of
        (Inr text, w1) \<Rightarrow> (Inr text, w1)
      | (Inl e, w1) \<Rightarrow> (Inr [], emit (StError (ProcessingError e)) w1))"

section \<open>Reading a run\<close>

text \<open>The number of windows of \<open>C\<close> ms needed to cover \<open>D\<close> ms, in whole numbers.\<close>

definition chunk_count :: "nat \<Rightarrow> nat \<Rightarrow> nat" where
  "chunk_count D C = (D + C - 1) div C"

text \<open>The seconds slept, and the temp files created, in the order they occur in a trace.\<close>

definition slept :: "event list \<Rightarrow> int list" where
  "slept es = concat (map (\<lambda>e. case e of Sleep s \<Rightarrow> [s] | _ \<Rightarrow> []) es)"

definition temp_files_made :: "event list \<Rightarrow> path list" where
  "temp_files_made es = concat (map (\<lambda>e. case e of TempFile p \<Rightarrow> [p] | _ \<Rightarrow> []) es)"

text \<open>What \<^verbatim>\<open>transcribe_chunk(p)\<close> returns when the file \<open>p\<close> holds the chunk \<open>c\<close>: the
  function is run on a disk that holds nothing else.\<close>

definition chunk_text :: "env \<Rightarrow> path \<Rightarrow> audio \<Rightarrow> string" where
  "chunk_text E p c =
     (case fst (transcribe_chunk E p 3 \<lparr>files = [p \<mapsto> c], trace = []\<rparr>) of
        Inr t \<Rightarrow> t | Inl e \<Rightarrow> [])"

text \<open>
  The temp files in flight: a file enters when \<^verbatim>\<open>NamedTemporaryFile\<close> creates it and
  leaves when \<^verbatim>\<open>os.unlink\<close> is called on it, whether or not the call removes it.
  \<open>one_at_a_time ps es\<close> runs through the
  events \<open>es\<close>, starting with the files \<open>ps\<close> in flight, and gives \<open>None\<close> as soon as
  two files are in flight at once; otherwise it gives the files in flight at the end.
\<close>

fun in_flight_step :: "path list \<Rightarrow> event \<Rightarrow> path list" where
  "in_flight_step ps (TempFile p) = p # removeAll p ps"
| "in_flight_step ps (Unlink p) = removeAll p ps"
| "in_flight_step ps e = ps"

fun one_at_a_time :: "path list \<Rightarrow> event list \<Rightarrow> path list option" where
  "one_at_a_time ps [] = Some ps"
| "one_at_a_time ps (e # es) =
     (let ps' = in_flight_step ps e
      in if length ps' \<le> 1 then one_at_a_time ps' es else None)"

section \<open>Sample runs\<close>

text \<open>
  A recording of two and a half minutes, so two chunks with the default of two minutes; a
  service that answers at once; a disk that does what it is asked. The other environments
  change one answer each.
\<close>

definition muted :: "nat \<Rightarrow> audio" where
  "muted n = replicate n 0"

definition blank :: world where
  "blank = \<lparr>files = Map.empty, trace = []\<rparr>"

definition one_file :: world where
  "one_file = \<lparr>files = [''chunk.mp3'' \<mapsto> muted 120000], trace = []\<rparr>"

definition chunk_path :: "nat \<Rightarrow> path" where
  "chunk_path i = (if i = 0 then ''tmp0.mp3'' else ''tmp1.mp3'')"

definition studio :: env where
  "studio = \<lparr>
     from_file = (\<lambda>p. if p = ''talk.mp3'' then Inr (muted 150000)
                      else if p = ''empty.mp3'' then Inr [] else Inl FileNotFoundError),
     new_temp = (\<lambda>i. Inr (chunk_path i)),
     export_error = (\<lambda>p. None),
     api_create = (\<lambda>p b k. Inr (if length b = 120000 then ''hello'' else ''world'')),
     unlink_error = (\<lambda>p k. None)\<rparr>"



text \<open>Every file is held open by someone: no unlink is allowed.\<close>

definition locked :: env where
  "locked = studio\<lparr>unlink_error := (\<lambda>p k. Some PermissionError)\<rparr>"

text \<open>The encoder fails when it writes to the file \<open>p\<close>.\<close>

definition encoder_fails_on :: "path \<Rightarrow> env" where
  "encoder_fails_on p = studio\<lparr>export_error :=
     (\<lambda>q. if q = p then Some (OtherError ''encoder'') else None)\<rparr>"


section \<open>Arithmetic of the windows\<close>

lemma chunk_count_lt: "0 < C \<Longrightarrow> j < chunk_count D C \<longleftrightarrow> j * C < D"
proof -
  assume C: "0 < C"
  have "j < (D + C - 1) div C \<longleftrightarrow> Suc j \<le> (D + C - 1) div C" by auto
  also have "\<dots> \<longleftrightarrow> Suc j * C \<le> D + C - 1" using C by (simp add: less_eq_div_iff_mult_less_eq)
  also have "\<dots> \<longleftrightarrow> j * C < D" using C by auto
  finally show ?thesis by (simp add: chunk_count_def)
qed

lemma chunk_count_ceiling:
  assumes "0 < C"
  shows "\<lceil>real D / real C\<rceil> = int (chunk_count D C)"
proof (rule ceiling_unique)
  let ?n = "chunk_count D C"
  have up: "D \<le> ?n * C" using chunk_count_lt [OF assms, of ?n D] by simp
  have "real D \<le> real (?n * C)" using up by (simp only: of_nat_le_iff)
  then show "real D / real C \<le> of_int (int ?n)"
    using assms by (simp add: divide_le_eq)
  show "of_int (int ?n) - 1 < real D / real C"
  proof (cases "?n")
    case 0
    have "0 \<le> real D / real C" by simp
    moreover have "of_int (int (chunk_count D C)) - 1 = (- 1 :: real)" using 0 by simp
    ultimately show ?thesis by linarith
  next
    case (Suc m)
    then have "m * C < D" using chunk_count_lt [OF assms, of m D] by simp
    then have "real (m * C) < real D" by (simp only: of_nat_less_iff)
    then show ?thesis using assms Suc by (simp add: less_divide_eq)
  qed
qed

lemma chunk_count_div_mod:
  assumes "0 < C"
  shows "chunk_count D C = D div C + (if D mod C = 0 then 0 else 1)"
proof -
  have decomp: "D + C - 1 = D mod C + C - 1 + (D div C) * C"
    using assms by (simp add: algebra_simps)
  have "(D mod C + C - 1) div C = (if D mod C = 0 then 0 else 1)"
  proof (cases "D mod C = 0")
    case True
    then show ?thesis using assms by simp
  next
    case False
    have "D mod C < C" using assms by simp
    then have e: "D mod C + C - 1 = (D mod C - 1) + C" and lt: "D mod C - 1 < C"
      using False by auto
    have "((D mod C - 1) + C) div C = (D mod C - 1) div C + 1"
      using assms by simp
    also have "\<dots> = 1" using lt by simp
    finally show ?thesis using False by (simp only: e if_False)
  qed
  moreover have "chunk_count D C = (D mod C + C - 1 + (D div C) * C) div C"
    unfolding chunk_count_def by (subst decomp) simp
  moreover have "(D mod C + C - 1 + (D div C) * C) div C = (D mod C + C - 1) div C + D div C"
    using assms by (subst div_mult_self1) (simp_all only: add.commute neq0_conv)
  ultimately show ?thesis by simp
qed

lemma last_window:
  assumes "0 < C" "0 < D"
  shows "D - (chunk_count D C - 1) * C = (if D mod C = 0 then C else D mod C)"
proof (cases "D mod C = 0")
  case True
  then have n: "chunk_count D C = D div C" using chunk_count_div_mod [OF assms(1)] by simp
  have D: "D = (D div C) * C" using True by auto
  have "D div C \<noteq> 0" using assms D by (cases "D div C") auto
  then obtain q where q: "D div C = Suc q" by (cases "D div C") auto
  have "D - q * C = C" by (subst D) (simp add: q)
  then show ?thesis using True n q by simp
next
  case False
  then have n: "chunk_count D C = D div C + 1" using chunk_count_div_mod [OF assms(1)] by simp
  show ?thesis using False n by (simp add: minus_div_mult_eq_mod)
qed

lemma range_from_starts:
  "0 < C \<Longrightarrow> j \<le> chunk_count D C \<Longrightarrow>
   range_from (int (j * C)) (int D) (int C) = map (\<lambda>k. int (k * C)) [j..<chunk_count D C]"
proof (induction "chunk_count D C - j" arbitrary: j)
  case 0
  then have "j = chunk_count D C" by simp
  then have "\<not> j * C < D" using chunk_count_lt [OF \<open>0 < C\<close>, of j D] by simp
  then have "\<not> int (j * C) < int D" by (simp only: of_nat_less_iff not_False_eq_True)
  then show ?case using \<open>j = chunk_count D C\<close> \<open>0 < C\<close>
    by (subst range_from.simps) (simp del: of_nat_mult)
next
  case (Suc m)
  then have lt: "j < chunk_count D C" by simp
  then have "j * C < D" using chunk_count_lt [OF \<open>0 < C\<close>] by simp
  have ih: "range_from (int (Suc j * C)) (int D) (int C) = map (\<lambda>k. int (k * C)) [Suc j..<chunk_count D C]"
    using Suc lt by (intro Suc.hyps(1)) auto
  have step: "int (j * C) + int C = int (Suc j * C)" by simp
  have lt': "int (j * C) < int D" using \<open>j * C < D\<close> by (simp only: of_nat_less_iff)
  have "range_from (int (j * C)) (int D) (int C) =
        int (j * C) # range_from (int (j * C) + int C) (int D) (int C)"
    using lt' \<open>0 < C\<close> by (subst range_from.simps) (simp del: of_nat_mult of_nat_add)
  also have "\<dots> = int (j * C) # map (\<lambda>k. int (k * C)) [Suc j..<chunk_count D C]"
    by (simp only: step ih)
  also have "\<dots> = map (\<lambda>k. int (k * C)) [j..<chunk_count D C]"
    using lt by (simp add: upt_conv_Cons del: of_nat_mult of_nat_add)
  finally show ?case .
qed


lemma range_from_none: "r \<le> 0 \<Longrightarrow> range_from 0 r 1 = []"
  by (subst range_from.simps) simp

lemma slice_ms_window:
  "slice_ms a (int s) (int s + int C) = take C (drop s a)"
  by (simp add: slice_ms_def Let_def nat_add_distrib min_def)

lemma concat_windows:
  "concat (map (\<lambda>k. take C (drop (k * C) a)) [0..<n]) = take (n * C) a"
proof (induction n)
  case 0 show ?case by simp
next
  case (Suc n)
  have "take (n * C) a @ take C (drop (n * C) a) = take (n * C + C) a"
    by (simp add: take_add)
  then show ?case using Suc by (simp add: add.commute)
qed

section \<open>Effects of the primitive steps\<close>

lemma trace_emit [simp]: "trace (emit e w) = trace w @ [e]"
  by (simp add: emit_def)

lemma files_emit [simp]: "files (emit e w) = files w"
  by (simp add: emit_def)

lemma slept_simps [simp]:
  "slept [] = []"
  "slept (Sleep s # es) = s # slept es"
  "slept (StWarning m # es) = slept es"
  "slept (StError m # es) = slept es"
  "slept (Submit p k # es) = slept es"
  by (simp_all add: slept_def)

lemma temp_files_made_simps [simp]:
  "temp_files_made [] = []"
  "temp_files_made (TempFile p # es) = p # temp_files_made es"
  "temp_files_made (StWarning m # es) = temp_files_made es"
  "temp_files_made (StError m # es) = temp_files_made es"
  "temp_files_made (NewProgressBar # es) = temp_files_made es"
  "temp_files_made (NewStatusText # es) = temp_files_made es"
  "temp_files_made (SetProgress i n # es) = temp_files_made es"
  "temp_files_made (StatusText i n # es) = temp_files_made es"
  "temp_files_made (Export p # es) = temp_files_made es"
  "temp_files_made (Submit p k # es) = temp_files_made es"
  "temp_files_made (Unlink p # es) = temp_files_made es"
  "temp_files_made (GcCollect # es) = temp_files_made es"
  "temp_files_made (Sleep s # es) = temp_files_made es"
  by (simp_all add: temp_files_made_def)

lemma slept_append [simp]: "slept (xs @ ys) = slept xs @ slept ys"
  by (simp add: slept_def)

lemma temp_files_made_append [simp]: "temp_files_made (xs @ ys) = temp_files_made xs @ temp_files_made ys"
  by (simp add: temp_files_made_def)

lemma submit_files [simp]: "files (snd (submit E p k w)) = files w"
  by (simp add: submit_def split: option.splits)

lemma submit_fst_cong: "files w p = files w' p \<Longrightarrow> fst (submit E p k w) = fst (submit E p k w')"
  by (simp add: submit_def split: option.splits)

lemma submit_made [simp]: "temp_files_made (trace (snd (submit E p k w))) = temp_files_made (trace w)"
  by (simp add: submit_def split: option.splits)


section \<open>Facts about \<^verbatim>\<open>safe_delete\<close>\<close>

lemma safe_delete_returns: "\<exists>b. fst (safe_delete E p w) = Inr b"
  by (auto simp: safe_delete_def os_unlink_def Let_def split: option.splits prod.splits sum.splits)

lemma safe_delete_other_files:
  "q \<noteq> p \<Longrightarrow> files (snd (safe_delete E p w)) q = files w q"
  by (auto simp: safe_delete_def os_unlink_def emit_def Let_def split: option.splits)

lemma safe_delete_made:
  "temp_files_made (trace (snd (safe_delete E p w))) = temp_files_made (trace w)"
  by (auto simp: safe_delete_def os_unlink_def Let_def split: option.splits)

section \<open>Facts about \<^verbatim>\<open>split_audio\<close>\<close>

lemma split_audio_step:
  assumes "from_file E file_path = Inr a" and "0 < C" and "chunk_minutes * 60 * 1000 = int C"
  shows "split_audio E file_path chunk_minutes w =
           (Inr (map (\<lambda>k. take C (drop (k * C) a)) [0..<chunk_count (length a) C]), w)"
proof -
  have r: "range_from 0 (int (length a)) (int C) =
           map (\<lambda>k. int (k * C)) [0..<chunk_count (length a) C]"
    using range_from_starts [OF assms(2), of 0 "length a"] by simp
  have nz: "int C \<noteq> 0" using assms(2) by simp
  have "split_audio E file_path chunk_minutes w =
        (Inr (map (\<lambda>i. slice_ms a i (i + int C)) (map (\<lambda>k. int (k * C)) [0..<chunk_count (length a) C])), w)"
    by (simp only: split_audio_def py_range_def Let_def assms(1) assms(3) sum.case nz if_False r)
  also have "map (\<lambda>i. slice_ms a i (i + int C)) (map (\<lambda>k. int (k * C)) [0..<chunk_count (length a) C])
      = map (\<lambda>k. take C (drop (k * C) a)) [0..<chunk_count (length a) C]"
    by (simp add: slice_ms_window del: of_nat_mult)
  finally show ?thesis .
qed

lemma split_audio_eq:
  assumes "from_file E file_path = Inr a" and "0 < chunk_minutes"
  shows "split_audio E file_path chunk_minutes w =
           (Inr (map (\<lambda>k. take (nat (chunk_minutes * 60 * 1000))
                              (drop (k * nat (chunk_minutes * 60 * 1000)) a))
                     [0..<chunk_count (length a) (nat (chunk_minutes * 60 * 1000))]), w)"
  using assms(2) by (intro split_audio_step [OF assms(1)]) auto

section \<open>Facts about \<^verbatim>\<open>transcribe_chunk\<close>\<close>

text \<open>The sleep: it changes no file, and whether it raises depends on its length only.\<close>

lemma time_sleep_files [simp]: "files (snd (time_sleep secs w)) = files w"
  by (simp add: time_sleep_def)

lemma time_sleep_made [simp]:
  "temp_files_made (trace (snd (time_sleep secs w))) = temp_files_made (trace w)"
  by (simp add: time_sleep_def)

lemma time_sleep_fst: "fst (time_sleep secs w) = fst (time_sleep secs w')"
  by (simp add: time_sleep_def)

text \<open>With at most 32 attempts the longest backoff is \<open>5 * 2 ^ 30\<close> seconds, which the
  sleep can hold.\<close>

lemma time_sleep_backoff:
  assumes "k < r - 1" and "r \<le> 32"
  shows "time_sleep (5 * 2 ^ nat k) w = (Inr (), emit (Sleep (5 * 2 ^ nat k)) w)"
proof -
  have "nat k \<le> 30" using assms by simp
  then have "(2::int) ^ nat k \<le> 2 ^ 30" by (intro power_increasing) simp_all
  then have up: "(5::int) * 2 ^ nat k \<le> 5368709120" by simp
  have lo: "(0::int) \<le> 5 * 2 ^ nat k" by simp
  show ?thesis using up lo by (simp add: time_sleep_def max_sleep_def)
qed

lemma attempts_files [simp]: "files (snd (attempts E p r ks w)) = files w"
proof (induction ks arbitrary: w)
  case Nil show ?case by simp
next
  case (Cons k ks)
  let ?wait = "5 * 2 ^ nat k"
  obtain res w1 where s: "submit E p k w = (res, w1)" by (cases "submit E p k w")
  then have f1: "files w1 = files w" using submit_files [of E p k w] by simp
  obtain rs w3 where ts: "time_sleep ?wait (emit (StWarning (RetryingIn ?wait)) w1) = (rs, w3)"
    by (cases "time_sleep ?wait (emit (StWarning (RetryingIn ?wait)) w1)")
  then have f3: "files w3 = files w1"
    using time_sleep_files [of ?wait "emit (StWarning (RetryingIn ?wait)) w1"] by simp
  show ?case using s ts f1 f3 Cons by (simp add: Let_def split: sum.splits)
qed

lemma attempts_made [simp]:
  "temp_files_made (trace (snd (attempts E p r ks w))) = temp_files_made (trace w)"
proof (induction ks arbitrary: w)
  case Nil show ?case by simp
next
  case (Cons k ks)
  let ?wait = "5 * 2 ^ nat k"
  obtain res w1 where s: "submit E p k w = (res, w1)" by (cases "submit E p k w")
  then have m1: "temp_files_made (trace w1) = temp_files_made (trace w)"
    using submit_made [of E p k w] by simp
  obtain rs w3 where ts: "time_sleep ?wait (emit (StWarning (RetryingIn ?wait)) w1) = (rs, w3)"
    by (cases "time_sleep ?wait (emit (StWarning (RetryingIn ?wait)) w1)")
  then have m3: "temp_files_made (trace w3) = temp_files_made (trace w1)"
    using time_sleep_made [of ?wait "emit (StWarning (RetryingIn ?wait)) w1"] by simp
  show ?case using s ts m1 m3 Cons by (simp add: Let_def split: sum.splits)
qed

text \<open>With at most 32 attempts \<^verbatim>\<open>transcribe_chunk\<close> raises nothing.\<close>

lemma attempts_returns: "r \<le> 32 \<Longrightarrow> \<exists>t. fst (attempts E p r ks w) = Inr t"
proof (induction ks arbitrary: w)
  case Nil show ?case by simp
next
  case (Cons k ks)
  obtain res w1 where s: "submit E p k w = (res, w1)" by (cases "submit E p k w")
  show ?case
  proof (cases res)
    case (Inr t)
    then show ?thesis using s by simp
  next
    case (Inl e)
    show ?thesis
    proof (cases "k < r - 1")
      case True
      show ?thesis
        using s Inl True Cons.IH [OF Cons.prems] time_sleep_backoff [OF True Cons.prems]
        by (simp add: Let_def)
    next
      case False
      then show ?thesis using s Inl by simp
    qed
  qed
qed

lemma attempts_fst_cong:
  "files w p = files w' p \<Longrightarrow> fst (attempts E p r ks w) = fst (attempts E p r ks w')"
proof (induction ks arbitrary: w w')
  case Nil show ?case by simp
next
  case (Cons k ks)
  let ?wait = "5 * 2 ^ nat k"
  obtain res w1 where s: "submit E p k w = (res, w1)" by (cases "submit E p k w")
  obtain res' w1' where s': "submit E p k w' = (res', w1')" by (cases "submit E p k w'")
  have r: "res' = res" using submit_fst_cong [OF Cons.prems, of E k] s s' by simp
  have f: "files w1 p = files w1' p"
    using submit_files [of E p k w] submit_files [of E p k w'] s s' Cons.prems by simp
  let ?w2 = "emit (StWarning (RetryingIn ?wait)) w1"
  let ?w2' = "emit (StWarning (RetryingIn ?wait)) w1'"
  obtain rs w3 where ts: "time_sleep ?wait ?w2 = (rs, w3)" by (cases "time_sleep ?wait ?w2")
  obtain rs' w3' where ts': "time_sleep ?wait ?w2' = (rs', w3')" by (cases "time_sleep ?wait ?w2'")
  have rr: "rs' = rs" using time_sleep_fst [of ?wait ?w2 ?w2'] ts ts' by simp
  have f3: "files w3 p = files w3' p"
    using time_sleep_files [of ?wait ?w2] time_sleep_files [of ?wait ?w2'] ts ts' f by simp
  have ih: "fst (attempts E p r ks w3) = fst (attempts E p r ks w3')"
    by (rule Cons.IH [OF f3])
  show ?case using s s' r ts ts' rr ih by (simp add: Let_def split: sum.splits)
qed


lemma transcribe_chunk_text:
  assumes "files w p = Some c"
  shows "fst (transcribe_chunk E p 3 w) = Inr (chunk_text E p c)"
proof -
  let ?w0 = "\<lparr>files = [p \<mapsto> c], trace = []\<rparr>"
  have "fst (transcribe_chunk E p 3 w) = fst (transcribe_chunk E p 3 ?w0)"
    unfolding transcribe_chunk_def by (rule attempts_fst_cong) (simp add: assms)
  moreover have "\<exists>t. fst (attempts E p 3 (range_from 0 3 1) ?w0) = Inr t"
    by (rule attempts_returns) simp
  then obtain t where "fst (transcribe_chunk E p 3 ?w0) = Inr t"
    unfolding transcribe_chunk_def by blast
  ultimately show ?thesis by (simp add: chunk_text_def)
qed

lemma transcribe_chunk_made:
  "temp_files_made (trace (snd (transcribe_chunk E p r w))) = temp_files_made (trace w)"
  by (simp add: transcribe_chunk_def)

lemma transcribe_chunk_files:
  "files (snd (transcribe_chunk E p r w)) = files w"
  by (simp add: transcribe_chunk_def)

section \<open>Facts about the loop\<close>

text \<open>One full turn of the loop when the temp file is created and the export works.\<close>

lemma chunk_loop_turn:
  assumes "new_temp E i = Inr p" and "export_error E p = None"
  shows "\<exists>w'. chunk_loop E n ((i, c) # rest) full w = chunk_loop E n rest (full @ [chunk_text E p c]) w' \<and>
              temp_files_made (trace w') = temp_files_made (trace w) @ [p]"
proof -
  let ?w1 = "emit (StatusText (i + 1) n) (emit (SetProgress (i + 1) n) w)"
  let ?w2 = "emit (TempFile p) (?w1\<lparr>files := (files ?w1)(p \<mapsto> [])\<rparr>)"
  let ?w3 = "(emit (Export p) ?w2)\<lparr>files := (files (emit (Export p) ?w2))(p \<mapsto> c)\<rparr>"
  have t: "named_temporary_file E i ?w1 = (Inr p, ?w2)"
    by (simp add: named_temporary_file_def assms(1))
  have x: "export E c p ?w2 = (Inr (), ?w3)"
    by (simp add: export_def assms(2) Let_def)
  obtain r4 w4 where tr: "transcribe_chunk E p 3 ?w3 = (r4, w4)"
    by (cases "transcribe_chunk E p 3 ?w3")
  have "files ?w3 p = Some c" by simp
  then have r4: "r4 = Inr (chunk_text E p c)"
    using transcribe_chunk_text [of ?w3 p c E] tr by simp
  have m4: "temp_files_made (trace w4) = temp_files_made (trace ?w3)"
    using transcribe_chunk_made [of E p 3 ?w3] tr by simp
  obtain r5 w5 where sd: "safe_delete E p w4 = (r5, w5)" by (cases "safe_delete E p w4")
  obtain b where r5: "r5 = Inr b" using safe_delete_returns [of E p w4] sd by auto
  have m5: "temp_files_made (trace w5) = temp_files_made (trace w4)"
    using safe_delete_made [of E p w4] sd by simp
  have "chunk_loop E n ((i, c) # rest) full w = chunk_loop E n rest (full @ [chunk_text E p c]) w5"
    by (simp only: chunk_loop.simps Let_def t x tr r4 sd r5 prod.case sum.case)
  moreover have "temp_files_made (trace w5) = temp_files_made (trace w) @ [p]"
    by (simp add: m5 m4)
  ultimately show ?thesis by blast
qed

lemma chunk_loop_prefix:
  assumes "\<forall>(k, c) \<in> set pre. new_temp E k = Inr (tp k) \<and> export_error E (tp k) = None"
  shows "\<exists>w'. chunk_loop E n (pre @ post) full w =
                 chunk_loop E n post (full @ map (\<lambda>(k, c). chunk_text E (tp k) c) pre) w' \<and>
              temp_files_made (trace w') = temp_files_made (trace w) @ map (\<lambda>(k, c). tp k) pre"
  using assms
proof (induction pre arbitrary: full w)
  case Nil
  show ?case by (intro exI [of _ w]) simp
next
  case (Cons ic pre)
  obtain i c where ic: "ic = (i, c)" by (cases ic)
  have ok: "new_temp E i = Inr (tp i)" "export_error E (tp i) = None"
    using Cons.prems ic by auto
  obtain w1 where w1: "chunk_loop E n ((i, c) # (pre @ post)) full w =
        chunk_loop E n (pre @ post) (full @ [chunk_text E (tp i) c]) w1"
      "temp_files_made (trace w1) = temp_files_made (trace w) @ [tp i]"
    using chunk_loop_turn [OF ok, of n c "pre @ post" full w] by blast
  have rest: "\<forall>(k, c) \<in> set pre. new_temp E k = Inr (tp k) \<and> export_error E (tp k) = None"
    using Cons.prems by simp
  obtain w2 where w2: "chunk_loop E n (pre @ post) (full @ [chunk_text E (tp i) c]) w1 =
        chunk_loop E n post ((full @ [chunk_text E (tp i) c]) @ map (\<lambda>(k, c). chunk_text E (tp k) c) pre) w2"
      "temp_files_made (trace w2) = temp_files_made (trace w1) @ map (\<lambda>(k, c). tp k) pre"
    using Cons.IH [OF rest, of "full @ [chunk_text E (tp i) c]" w1] by blast
  show ?case using w1 w2 ic by auto
qed

text \<open>The two ways out of the loop by an exception.\<close>

lemma chunk_loop_export_raises:
  assumes "new_temp E i = Inr p" and "export_error E p = Some e"
  shows "fst (chunk_loop E n ((i, c) # rest) full w) = Inl e"
    and "trace (snd (chunk_loop E n ((i, c) # rest) full w)) =
           trace w @ [SetProgress (i + 1) n, StatusText (i + 1) n, TempFile p, Export p]"
    and "files (snd (chunk_loop E n ((i, c) # rest) full w)) = (files w)(p \<mapsto> [])"
  using assms by (simp_all add: Let_def named_temporary_file_def export_def)

lemma chunk_loop_temp_raises:
  assumes "new_temp E i = Inl e"
  shows "fst (chunk_loop E n ((i, c) # rest) full w) = Inl e"
    and "trace (snd (chunk_loop E n ((i, c) # rest) full w)) =
           trace w @ [SetProgress (i + 1) n, StatusText (i + 1) n]"
    and "files (snd (chunk_loop E n ((i, c) # rest) full w)) = files w"
  using assms by (simp_all add: Let_def named_temporary_file_def)

text \<open>\<^verbatim>\<open>enumerate\<close>, cut at an index.\<close>

lemma py_enumerate_cut:
  assumes "i < length xs"
  shows "py_enumerate xs = take i (py_enumerate xs) @ (i, xs ! i) # drop (Suc i) (py_enumerate xs)"
proof -
  have "i < length (py_enumerate xs)" using assms by (simp add: py_enumerate_def)
  moreover have "py_enumerate xs ! i = (i, xs ! i)" using assms by (simp add: py_enumerate_def)
  ultimately show ?thesis using id_take_nth_drop [of i "py_enumerate xs"] by simp
qed

lemma py_enumerate_take_set:
  assumes "(k, c) \<in> set (take i (py_enumerate xs))"
  shows "k < i"
proof -
  have k: "k \<in> set (take i [0..<length xs])"
    using assms by (auto simp: py_enumerate_def take_zip dest!: set_zip_leftD)
  show ?thesis
  proof (cases "i \<le> length xs")
    case True
    then show ?thesis using k by simp
  next
    case False
    have "k \<in> set [0..<length xs]" using k by (rule in_set_takeD)
    then show ?thesis using False by simp
  qed
qed

lemma py_enumerate_take_fst:
  "i \<le> length xs \<Longrightarrow> map fst (take i (py_enumerate xs)) = [0..<i]"
  by (simp add: py_enumerate_def take_zip min_def)

lemma py_enumerate_set: "(k, c) \<in> set (py_enumerate xs) \<Longrightarrow> k < length xs"
  by (auto simp: py_enumerate_def dest!: set_zip_leftD)

lemma py_enumerate_map:
  "map (\<lambda>(k, c). f k c) (py_enumerate xs) = map (\<lambda>k. f k (xs ! k)) [0..<length xs]"
  by (rule nth_equalityI) (simp_all add: py_enumerate_def)

section \<open>Facts about the job\<close>

lemma split_audio_returns: "\<exists>chunks. fst (split_audio E fp m w) = Inr chunks"
  by (simp add: split_audio_def Let_def split: sum.splits)

lemma split_audio_made:
  "temp_files_made (trace (snd (split_audio E fp m w))) = temp_files_made (trace w)"
  by (simp add: split_audio_def Let_def split: sum.splits)

lemma split_audio_files: "files (snd (split_audio E fp m w)) = files w"
  by (simp add: split_audio_def Let_def split: sum.splits)

text \<open>A step of zero makes \<^verbatim>\<open>range\<close> raise, which the handler turns into the empty list
  and an error on the page; a negative step gives the empty range.\<close>

lemma split_audio_no_step:
  assumes "from_file E fp = Inr a"
  shows "split_audio E fp 0 w = (Inr [], emit (StError (ErrorSplitting ValueError)) w)"
    and "chunk_minutes < 0 \<Longrightarrow> split_audio E fp chunk_minutes w = (Inr [], w)"
proof -
  show "split_audio E fp 0 w = (Inr [], emit (StError (ErrorSplitting ValueError)) w)"
    using assms by (simp add: split_audio_def py_range_def)
  assume neg: "chunk_minutes < 0"
  have "range_from 0 (int (length a)) (chunk_minutes * 60 * 1000) = []"
    using neg by (subst range_from.simps) simp
  then show "split_audio E fp chunk_minutes w = (Inr [], w)"
    using assms neg by (simp add: split_audio_def py_range_def Let_def)
qed

lemma join_length:
  "length (join sep xs) = sum_list (map length xs) + length sep * (length xs - 1)"
  by (induction sep xs rule: join.induct) simp_all

text \<open>The job when no chunk's temp file or export fails.\<close>

lemma process_body_ok:
  assumes "fst (split_audio E fp 2 w) = Inr chunks" and "chunks \<noteq> []"
    and "\<forall>i < length chunks. new_temp E i = Inr (tp i) \<and> export_error E (tp i) = None"
  shows "fst (process_body E fp w) =
           Inr (join paragraph_sep (map (\<lambda>i. chunk_text E (tp i) (chunks ! i)) [0..<length chunks]))"
proof -
  obtain w1 where s: "split_audio E fp 2 w = (Inr chunks, w1)"
    using assms(1) by (cases "split_audio E fp 2 w") simp
  let ?w2 = "emit NewStatusText (emit NewProgressBar w1)"
  have ok: "\<forall>(k, c) \<in> set (py_enumerate chunks). new_temp E k = Inr (tp k) \<and> export_error E (tp k) = None"
    using assms(3) py_enumerate_set by fastforce
  obtain w' where "chunk_loop E (length chunks) (py_enumerate chunks @ []) [] ?w2 =
      chunk_loop E (length chunks) [] ([] @ map (\<lambda>(k, c). chunk_text E (tp k) c) (py_enumerate chunks)) w'"
    using chunk_loop_prefix [OF ok, of "length chunks" "[]" "[]" ?w2] by blast
  then have "chunk_loop E (length chunks) (py_enumerate chunks) [] ?w2 =
      (Inr (map (\<lambda>i. chunk_text E (tp i) (chunks ! i)) [0..<length chunks]), w')"
    by (simp add: py_enumerate_map)
  then show ?thesis using s assms(2) by (simp add: process_body_def Let_def)
qed

lemma process_long_audio_ok:
  assumes "fst (split_audio E fp 2 w) = Inr chunks" and "chunks \<noteq> []"
    and "\<forall>i < length chunks. new_temp E i = Inr (tp i) \<and> export_error E (tp i) = None"
  shows "fst (process_long_audio E fp w) =
           Inr (join paragraph_sep (map (\<lambda>i. chunk_text E (tp i) (chunks ! i)) [0..<length chunks]))"
  using process_body_ok [OF assms]
  by (cases "process_body E fp w") (simp add: process_long_audio_def)

text \<open>The \<^verbatim>\<open>try\<close> block when the export of chunk \<open>i\<close> is the first thing to fail.\<close>

lemma process_body_export_raises:
  assumes "fst (split_audio E fp 2 w) = Inr chunks" and "i < length chunks"
    and "\<forall>k < i. new_temp E k = Inr (tp k) \<and> export_error E (tp k) = None"
    and "new_temp E i = Inr (tp i)" and "export_error E (tp i) = Some e"
  shows "\<exists>w3. process_body E fp w = (Inl e, w3) \<and>
           temp_files_made (trace w3) = temp_files_made (trace w) @ map tp [0..<Suc i] \<and>
           last (trace w3) = Export (tp i) \<and> files w3 (tp i) = Some []"
proof -
  obtain w1 where s: "split_audio E fp 2 w = (Inr chunks, w1)"
    using assms(1) by (cases "split_audio E fp 2 w") simp
  have m1: "temp_files_made (trace w1) = temp_files_made (trace w)"
    using split_audio_made [of E fp 2 w] s by simp
  have ne: "chunks \<noteq> []" using assms(2) by auto
  let ?n = "length chunks"
  let ?w2 = "emit NewStatusText (emit NewProgressBar w1)"
  let ?pre = "take i (py_enumerate chunks)"
  let ?rest = "drop (Suc i) (py_enumerate chunks)"
  let ?full = "[] @ map (\<lambda>(k, c). chunk_text E (tp k) c) ?pre"
  have cut: "py_enumerate chunks = ?pre @ (i, chunks ! i) # ?rest"
    by (rule py_enumerate_cut [OF assms(2)])
  have ok: "\<forall>(k, c) \<in> set ?pre. new_temp E k = Inr (tp k) \<and> export_error E (tp k) = None"
  proof (rule ballI)
    fix x assume x: "x \<in> set ?pre"
    obtain k c where kc: "x = (k, c)" by (cases x)
    have "k < i" using x kc py_enumerate_take_set [of k c i chunks] by simp
    then show "case x of (k, c) \<Rightarrow> new_temp E k = Inr (tp k) \<and> export_error E (tp k) = None"
      using assms(3) kc by simp
  qed
  obtain w' where l: "chunk_loop E ?n (?pre @ (i, chunks ! i) # ?rest) [] ?w2 =
        chunk_loop E ?n ((i, chunks ! i) # ?rest) ?full w'"
    and m': "temp_files_made (trace w') = temp_files_made (trace ?w2) @ map (\<lambda>(k, c). tp k) ?pre"
    using chunk_loop_prefix [OF ok, of ?n "(i, chunks ! i) # ?rest" "[]" ?w2] by blast
  have "map (\<lambda>(k, c). tp k) ?pre = map tp (map fst ?pre)" by (simp add: case_prod_beta)
  also have "\<dots> = map tp [0..<i]" using assms(2) by (simp add: py_enumerate_take_fst)
  finally have pre: "map (\<lambda>(k, c). tp k) ?pre = map tp [0..<i]" .
  obtain r3 w3 where c: "chunk_loop E ?n ((i, chunks ! i) # ?rest) ?full w' = (r3, w3)"
    by (cases "chunk_loop E ?n ((i, chunks ! i) # ?rest) ?full w'")
  have r3: "r3 = Inl e"
    using chunk_loop_export_raises(1) [OF assms(4,5), of ?n "chunks ! i" ?rest ?full w'] c by simp
  have t3: "trace w3 = trace w' @ [SetProgress (i + 1) ?n, StatusText (i + 1) ?n, TempFile (tp i), Export (tp i)]"
    using chunk_loop_export_raises(2) [OF assms(4,5), of ?n "chunks ! i" ?rest ?full w'] c by simp
  have f3: "files w3 = (files w')(tp i \<mapsto> [])"
    using chunk_loop_export_raises(3) [OF assms(4,5), of ?n "chunks ! i" ?rest ?full w'] c by simp
  have "chunk_loop E ?n (py_enumerate chunks) [] ?w2 =
        chunk_loop E ?n (?pre @ (i, chunks ! i) # ?rest) [] ?w2"
    by (rule arg_cong [where f = "\<lambda>ics. chunk_loop E ?n ics [] ?w2", OF cut])
  then have "chunk_loop E ?n (py_enumerate chunks) [] ?w2 = (Inl e, w3)"
    by (simp only: l c r3)
  then have "process_body E fp w = (Inl e, w3)"
    using s ne by (simp add: process_body_def Let_def)
  moreover have "temp_files_made (trace w3) = temp_files_made (trace w) @ map tp [0..<Suc i]"
    by (simp add: t3 m' pre m1)
  moreover have "last (trace w3) = Export (tp i)" by (simp add: t3)
  moreover have "files w3 (tp i) = Some []" by (simp add: f3)
  ultimately show ?thesis by blast
qed

text \<open>The same when the creation of the temp file of chunk \<open>i\<close> is the first thing to fail.\<close>

lemma process_body_temp_raises:
  assumes "fst (split_audio E fp 2 w) = Inr chunks" and "i < length chunks"
    and "\<forall>k < i. new_temp E k = Inr (tp k) \<and> export_error E (tp k) = None"
    and "new_temp E i = Inl e"
  shows "fst (process_body E fp w) = Inl e"
proof -
  obtain w1 where s: "split_audio E fp 2 w = (Inr chunks, w1)"
    using assms(1) by (cases "split_audio E fp 2 w") simp
  have ne: "chunks \<noteq> []" using assms(2) by auto
  let ?n = "length chunks"
  let ?w2 = "emit NewStatusText (emit NewProgressBar w1)"
  let ?pre = "take i (py_enumerate chunks)"
  let ?rest = "drop (Suc i) (py_enumerate chunks)"
  let ?full = "[] @ map (\<lambda>(k, c). chunk_text E (tp k) c) ?pre"
  have cut: "py_enumerate chunks = ?pre @ (i, chunks ! i) # ?rest"
    by (rule py_enumerate_cut [OF assms(2)])
  have ok: "\<forall>(k, c) \<in> set ?pre. new_temp E k = Inr (tp k) \<and> export_error E (tp k) = None"
  proof (rule ballI)
    fix x assume x: "x \<in> set ?pre"
    obtain k c where kc: "x = (k, c)" by (cases x)
    have "k < i" using x kc py_enumerate_take_set [of k c i chunks] by simp
    then show "case x of (k, c) \<Rightarrow> new_temp E k = Inr (tp k) \<and> export_error E (tp k) = None"
      using assms(3) kc by simp
  qed
  obtain w' where l: "chunk_loop E ?n (?pre @ (i, chunks ! i) # ?rest) [] ?w2 =
        chunk_loop E ?n ((i, chunks ! i) # ?rest) ?full w'"
    using chunk_loop_prefix [OF ok, of ?n "(i, chunks ! i) # ?rest" "[]" ?w2] by blast
  have "chunk_loop E ?n (py_enumerate chunks) [] ?w2 =
        chunk_loop E ?n (?pre @ (i, chunks ! i) # ?rest) [] ?w2"
    by (rule arg_cong [where f = "\<lambda>ics. chunk_loop E ?n ics [] ?w2", OF cut])
  then have "fst (chunk_loop E ?n (py_enumerate chunks) [] ?w2) = Inl e"
    using chunk_loop_temp_raises(1) [OF assms(4), of ?n "chunks ! i" ?rest ?full w']
    by (simp only: l)
  then obtain w3 where "chunk_loop E ?n (py_enumerate chunks) [] ?w2 = (Inl e, w3)"
    by (cases "chunk_loop E ?n (py_enumerate chunks) [] ?w2") simp
  then show ?thesis
    using s ne by (simp add: process_body_def Let_def)
qed

text \<open>So the \<^verbatim>\<open>try\<close> block raises exactly when some chunk does not get both its temp file
  and its export: on every other run with at least one chunk it returns the joined
  transcript.\<close>

lemma process_body_raises_iff:
  assumes "fst (split_audio E fp 2 w) = Inr chunks" and "chunks \<noteq> []"
  shows "(\<exists>e. fst (process_body E fp w) = Inl e) \<longleftrightarrow>
         (\<exists>i < length chunks. \<forall>p. new_temp E i = Inr p \<longrightarrow> export_error E p \<noteq> None)"
proof
  assume "\<exists>e. fst (process_body E fp w) = Inl e"
  then obtain e where e: "fst (process_body E fp w) = Inl e" by blast
  show "\<exists>i < length chunks. \<forall>p. new_temp E i = Inr p \<longrightarrow> export_error E p \<noteq> None"
  proof (rule ccontr)
    assume "\<not> (\<exists>i < length chunks. \<forall>p. new_temp E i = Inr p \<longrightarrow> export_error E p \<noteq> None)"
    then have all: "\<forall>i < length chunks. \<exists>p. new_temp E i = Inr p \<and> export_error E p = None"
      by auto
    define tp where "tp i = (case new_temp E i of Inr p \<Rightarrow> p | Inl x \<Rightarrow> [])" for i
    have "\<forall>i < length chunks. new_temp E i = Inr (tp i) \<and> export_error E (tp i) = None"
      using all by (auto simp: tp_def)
    then have "\<exists>t. fst (process_body E fp w) = Inr t"
      using process_body_ok [OF assms] by blast
    then show False using e by simp
  qed
next
  let ?bad = "\<lambda>i. i < length chunks \<and> (\<forall>p. new_temp E i = Inr p \<longrightarrow> export_error E p \<noteq> None)"
  assume "\<exists>i < length chunks. \<forall>p. new_temp E i = Inr p \<longrightarrow> export_error E p \<noteq> None"
  then have ex: "\<exists>i. ?bad i" by blast
  define i where "i = (LEAST i. ?bad i)"
  have bad: "?bad i" unfolding i_def using ex by (rule LeastI_ex)
  have least: "\<And>k. k < i \<Longrightarrow> \<not> ?bad k" unfolding i_def by (rule not_less_Least)
  define tp where "tp k = (case new_temp E k of Inr p \<Rightarrow> p | Inl x \<Rightarrow> [])" for k
  have pre: "\<forall>k < i. new_temp E k = Inr (tp k) \<and> export_error E (tp k) = None"
  proof (intro allI impI)
    fix k assume k: "k < i"
    then have "k < length chunks" using bad by simp
    then obtain p where "new_temp E k = Inr p" "export_error E p = None"
      using least [OF k] by auto
    then show "new_temp E k = Inr (tp k) \<and> export_error E (tp k) = None"
      by (simp add: tp_def)
  qed
  show "\<exists>e. fst (process_body E fp w) = Inl e"
  proof (cases "new_temp E i")
    case (Inl e)
    have il: "i < length chunks" using bad by simp
    show ?thesis
      using process_body_temp_raises [OF assms(1) il pre Inl] by blast
  next
    case (Inr p)
    then obtain e where e: "export_error E p = Some e" using bad by auto
    have t: "new_temp E i = Inr (tp i)" using Inr by (simp add: tp_def)
    have x: "export_error E (tp i) = Some e" using Inr e by (simp add: tp_def)
    have il: "i < length chunks" using bad by simp
    obtain w3 where "process_body E fp w = (Inl e, w3)"
      using process_body_export_raises [OF assms(1) il pre t x] by blast
    then have "fst (process_body E fp w) = Inl e" by simp
    then show ?thesis by blast
  qed
qed

text \<open>Nothing but the loop raises inside the \<^verbatim>\<open>try\<close> block.\<close>

lemma process_body_raises_in_loop:
  assumes "fst (process_body E fp w) = Inl e"
  shows "\<exists>chunks. fst (split_audio E fp 2 w) = Inr chunks \<and> chunks \<noteq> [] \<and>
           fst (chunk_loop E (length chunks) (py_enumerate chunks) []
                  (emit NewStatusText (emit NewProgressBar (snd (split_audio E fp 2 w))))) = Inl e"
proof -
  obtain chunks where c: "fst (split_audio E fp 2 w) = Inr chunks"
    using split_audio_returns by blast
  then obtain w1 where s: "split_audio E fp 2 w = (Inr chunks, w1)"
    by (cases "split_audio E fp 2 w") simp
  have ne: "chunks \<noteq> []" using assms s by (auto simp: process_body_def)
  have "fst (chunk_loop E (length chunks) (py_enumerate chunks) []
                  (emit NewStatusText (emit NewProgressBar w1))) = Inl e"
    using assms s ne by (auto simp: process_body_def Let_def split: prod.splits sum.splits)
  then show ?thesis using c s ne by auto
qed

text \<open>With no attempt to make, \<^verbatim>\<open>transcribe_chunk\<close> falls out of its loop at once: the
  empty string, and nothing reported.\<close>

lemma transcribe_chunk_no_attempt:
  "retries \<le> 0 \<Longrightarrow> transcribe_chunk E p retries w = (Inr [], w)"
  by (simp add: transcribe_chunk_def range_from_none)



section \<open>The sample runs, evaluated\<close>

lemma studio_chunks:
  "from_file E ''talk.mp3'' = Inr (muted 150000) \<Longrightarrow>
   split_audio E ''talk.mp3'' 2 w = (Inr [muted 120000, muted 30000], w)"
  by (simp add: split_audio_eq chunk_count_def muted_def upt_rec)

lemma encoder_fails_chunks:
  "split_audio (encoder_fails_on p) ''talk.mp3'' 2 w = (Inr [muted 120000, muted 30000], w)"
  by (rule studio_chunks) (simp add: encoder_fails_on_def studio_def)

lemma two_elems: "length xs = 2 \<Longrightarrow> xs = [xs ! 0, xs ! 1]"
  by (cases xs; cases "tl xs"; cases "tl (tl xs)") auto

lemma chunk_text_studio:
  "chunk_text studio p (muted 120000) = ''hello''" "chunk_text studio p (muted 30000) = ''world''"
  by (simp_all add: chunk_text_def transcribe_chunk_def studio_def muted_def submit_def range_from.simps)

lemma encoder_fails_run:
  "fst (process_body (encoder_fails_on ''tmp1.mp3'') ''talk.mp3'' blank) = Inl (OtherError ''encoder'')"
  "trace (snd (process_body (encoder_fails_on ''tmp1.mp3'') ''talk.mp3'' blank)) =
     [NewProgressBar, NewStatusText,
      SetProgress 1 2, StatusText 1 2, TempFile ''tmp0.mp3'', Export ''tmp0.mp3'',
      Submit ''tmp0.mp3'' 0, Unlink ''tmp0.mp3'',
      SetProgress 2 2, StatusText 2 2, TempFile ''tmp1.mp3'', Export ''tmp1.mp3'']"
  "files (snd (process_body (encoder_fails_on ''tmp1.mp3'') ''talk.mp3'' blank)) ''tmp0.mp3'' = None"
  "files (snd (process_body (encoder_fails_on ''tmp1.mp3'') ''talk.mp3'' blank)) ''tmp1.mp3'' = Some []"
  unfolding process_body_def encoder_fails_chunks
  by (simp_all add: py_enumerate_def named_temporary_file_def export_def emit_def blank_def Let_def
        transcribe_chunk_def range_from.simps submit_def safe_delete_def os_unlink_def
        encoder_fails_on_def studio_def chunk_path_def muted_def)

section \<open>At most one temp file in flight\<close>

text \<open>
  On every run of \<^verbatim>\<open>process_long_audio\<close>, whatever the outside answers, no two temp files
  are in flight at the same time: the file of a chunk is created, exported to and sent,
  and \<^verbatim>\<open>os.unlink\<close> is called on it, before the next one is created, and a run that
  aborts stops creating files. This counts the files the job still has to hand over to
  \<^verbatim>\<open>safe_delete\<close>, not the files on disk: a file whose unlink is refused stays on disk
  while the next ones are created.
\<close>

lemma one_at_a_time_append:
  "one_at_a_time ps (xs @ ys) =
     (case one_at_a_time ps xs of None \<Rightarrow> None | Some ps' \<Rightarrow> one_at_a_time ps' ys)"
  by (induction xs arbitrary: ps) (simp_all add: Let_def)

lemma submit_one_at_a_time:
  assumes "one_at_a_time qs (trace w) = Some ps" and "length ps \<le> 1"
  shows "one_at_a_time qs (trace (snd (submit E p k w))) = Some ps"
  using assms by (simp add: submit_def one_at_a_time_append split: option.splits)

lemma attempts_one_at_a_time:
  assumes "one_at_a_time qs (trace w) = Some ps" and "length ps \<le> 1"
  shows "one_at_a_time qs (trace (snd (attempts E p r ks w))) = Some ps"
  using assms
proof (induction ks arbitrary: w)
  case Nil
  then show ?case by simp
next
  case (Cons k ks)
  obtain res w1 where s: "submit E p k w = (res, w1)" by (cases "submit E p k w")
  have o1: "one_at_a_time qs (trace w1) = Some ps"
    using submit_one_at_a_time [OF Cons.prems, of E p k] s by simp
  show ?case
  proof (cases res)
    case (Inr t)
    then show ?thesis using s o1 by simp
  next
    case (Inl e)
    let ?w2 = "emit (StWarning (RetryingIn (5 * 2 ^ nat k))) w1"
    obtain rs w3 where ts: "time_sleep (5 * 2 ^ nat k) ?w2 = (rs, w3)"
      by (cases "time_sleep (5 * 2 ^ nat k) ?w2")
    have "one_at_a_time qs (trace (snd (time_sleep (5 * 2 ^ nat k) ?w2))) = Some ps"
      using o1 Cons.prems(2) by (simp add: time_sleep_def one_at_a_time_append)
    then have o3: "one_at_a_time qs (trace w3) = Some ps" using ts by simp
    then have "one_at_a_time qs (trace (snd (attempts E p r ks w3))) = Some ps"
      using Cons.prems(2) by (rule Cons.IH)
    moreover have "one_at_a_time qs (trace (emit (StError (ChunkFailed e)) w1)) = Some ps"
      using o1 Cons.prems(2) by (simp add: one_at_a_time_append)
    ultimately show ?thesis using s Inl ts o3 by (simp add: Let_def split: sum.splits)
  qed
qed

lemma safe_delete_one_at_a_time:
  assumes "one_at_a_time qs (trace w) = Some [p]" and "files w p \<noteq> None"
  shows "one_at_a_time qs (trace (snd (safe_delete E p w))) = Some []"
  using assms
  by (auto simp: safe_delete_def os_unlink_def emit_def Let_def one_at_a_time_append
      split: option.splits)

lemma chunk_loop_one_at_a_time:
  assumes "one_at_a_time qs (trace w) = Some []"
  shows "\<exists>ps. one_at_a_time qs (trace (snd (chunk_loop E n ics full w))) = Some ps \<and>
              length ps \<le> 1"
  using assms
proof (induction ics arbitrary: full w)
  case Nil
  then show ?case by simp
next
  case (Cons ic ics)
  obtain i c where ic: "ic = (i, c)" by (cases ic)
  let ?w1 = "emit (StatusText (i + 1) n) (emit (SetProgress (i + 1) n) w)"
  have o1: "one_at_a_time qs (trace ?w1) = Some []"
    using Cons.prems by (simp add: one_at_a_time_append)
  show ?case
  proof (cases "new_temp E i")
    case (Inl e)
    then have "chunk_loop E n (ic # ics) full w = (Inl e, ?w1)"
      by (simp add: ic Let_def named_temporary_file_def)
    then show ?thesis using o1 by simp
  next
    case (Inr p)
    let ?w2 = "emit (TempFile p) (?w1\<lparr>files := (files ?w1)(p \<mapsto> [])\<rparr>)"
    have t: "named_temporary_file E i ?w1 = (Inr p, ?w2)"
      by (simp add: named_temporary_file_def Inr)
    have o2: "one_at_a_time qs (trace ?w2) = Some [p]"
      using Cons.prems by (simp add: one_at_a_time_append)
    show ?thesis
    proof (cases "export_error E p")
      case (Some e)
      then have "chunk_loop E n (ic # ics) full w = (Inl e, emit (Export p) ?w2)"
        by (simp only: ic chunk_loop.simps Let_def t prod.case sum.case export_def option.case)
      moreover have "one_at_a_time qs (trace (emit (Export p) ?w2)) = Some [p]"
        using Cons.prems by (simp add: one_at_a_time_append)
      ultimately show ?thesis by simp
    next
      case None
      let ?w3 = "(emit (Export p) ?w2)\<lparr>files := (files (emit (Export p) ?w2))(p \<mapsto> c)\<rparr>"
      have x: "export E c p ?w2 = (Inr (), ?w3)"
        by (simp add: export_def None Let_def)
      have o3: "one_at_a_time qs (trace ?w3) = Some [p]"
        using Cons.prems by (simp add: one_at_a_time_append)
      obtain r4 w4 where tr: "transcribe_chunk E p 3 ?w3 = (r4, w4)"
        by (cases "transcribe_chunk E p 3 ?w3")
      obtain t4 where r4: "r4 = Inr t4"
        using attempts_returns [of 3 E p "range_from 0 3 1" ?w3] tr
        by (auto simp: transcribe_chunk_def)
      have o4: "one_at_a_time qs (trace w4) = Some [p]"
        using attempts_one_at_a_time [OF o3, of E p 3 "range_from 0 3 1"] tr
        by (simp add: transcribe_chunk_def)
      have f4: "files w4 p \<noteq> None"
        using transcribe_chunk_files [of E p 3 ?w3] tr by simp
      obtain r5 w5 where sd: "safe_delete E p w4 = (r5, w5)" by (cases "safe_delete E p w4")
      obtain b where r5: "r5 = Inr b" using safe_delete_returns [of E p w4] sd by auto
      have o5: "one_at_a_time qs (trace w5) = Some []"
        using safe_delete_one_at_a_time [OF o4 f4, of E] sd by simp
      have "chunk_loop E n (ic # ics) full w = chunk_loop E n ics (full @ [t4]) w5"
        by (simp only: ic chunk_loop.simps Let_def t x tr r4 sd r5 prod.case sum.case)
      then show ?thesis using Cons.IH [OF o5] by simp
    qed
  qed
qed

lemma process_long_audio_one_at_a_time:
  assumes "trace w = []"
  shows "\<exists>ps. one_at_a_time [] (trace (snd (process_long_audio E fp w))) = Some ps"
proof -
  obtain r1 w1 where s: "split_audio E fp 2 w = (r1, w1)" by (cases "split_audio E fp 2 w")
  obtain chunks where r1: "r1 = Inr chunks" using split_audio_returns [of E fp 2 w] s by auto
  have o1: "one_at_a_time [] (trace w1) = Some []"
    using s assms by (auto simp: split_audio_def Let_def split: sum.splits)
  show ?thesis
  proof (cases "chunks = []")
    case True
    then show ?thesis using s r1 o1 by (simp add: process_long_audio_def process_body_def)
  next
    case False
    let ?w2 = "emit NewStatusText (emit NewProgressBar w1)"
    have o2: "one_at_a_time [] (trace ?w2) = Some []"
      using o1 by (simp add: one_at_a_time_append)
    obtain r3 w3 where l: "chunk_loop E (length chunks) (py_enumerate chunks) [] ?w2 = (r3, w3)"
      by (cases "chunk_loop E (length chunks) (py_enumerate chunks) [] ?w2")
    obtain ps where o3: "one_at_a_time [] (trace w3) = Some ps" and n3: "length ps \<le> 1"
      using chunk_loop_one_at_a_time [OF o2, of E "length chunks" "py_enumerate chunks" "[]"] l
      by auto
    show ?thesis
    proof (cases r3)
      case (Inr full)
      then show ?thesis using s r1 False l o3
        by (simp add: process_long_audio_def process_body_def Let_def)
    next
      case (Inl e)
      have "one_at_a_time [] (trace (emit (StError (ProcessingError e)) w3)) = Some ps"
        using o3 n3 by (simp add: one_at_a_time_append)
      then show ?thesis using s r1 False l Inl
        by (simp add: process_long_audio_def process_body_def Let_def)
    qed
  qed
qed

section \<open>Claims about \<^verbatim>\<open>safe_delete\<close>\<close>

text \<open>
  C10. For every path that does not exist on the disk, \<^verbatim>\<open>safe_delete\<close> returns
  \<^verbatim>\<open>False\<close>; it raises nothing, it shows no warning, and it leaves the world as it
  found it (no unlink is tried). An absent file is not counted as a deletion.
\<close>

theorem safe_delete_missing:
  "files w file_path = None \<Longrightarrow> safe_delete E file_path w = (Inr False, w)"
  by (simp add: safe_delete_def)

theorem safe_delete_missing_witness:
  "files one_file ''gone.mp3'' = None \<and>
   safe_delete locked ''gone.mp3'' one_file = (Inr False, one_file)"
  using safe_delete_missing [of one_file "''gone.mp3''" locked]
  by (simp add: one_file_def)

text \<open>
  C8. For every path, \<^verbatim>\<open>safe_delete\<close> returns a boolean and never an exception, and it
  touches no other file. When the file exists and the first \<^verbatim>\<open>os.unlink\<close> raises
  \<^verbatim>\<open>PermissionError\<close>, the effects are, in this order: the unlink, \<^verbatim>\<open>gc.collect()\<close>,
  a sleep of 1 second, one more unlink; if that second unlink raises too, one warning
  follows, the result is \<^verbatim>\<open>False\<close> and the file is still there; otherwise the result
  is \<^verbatim>\<open>True\<close> and the file is gone. Any other exception of the first unlink gives
  one warning and \<^verbatim>\<open>False\<close>, with no second try; an unlink that works gives
  \<^verbatim>\<open>True\<close> and no warning.
\<close>

theorem safe_delete_swallows:
  "(\<exists>b. fst (safe_delete E p w) = Inr b) \<and>
   (\<forall>q. q \<noteq> p \<longrightarrow> files (snd (safe_delete E p w)) q = files w q) \<and>
   (files w p \<noteq> None \<and> unlink_error E p 0 = Some PermissionError \<longrightarrow>
      fst (safe_delete E p w) = Inr (unlink_error E p 1 = None) \<and>
      trace (snd (safe_delete E p w)) =
        trace w @ [Unlink p, GcCollect, Sleep 1, Unlink p] @
        (if unlink_error E p 1 = None then [] else [StWarning (CouldntDelete p)]) \<and>
      files (snd (safe_delete E p w)) p = (if unlink_error E p 1 = None then None else files w p)) \<and>
   (\<forall>e. files w p \<noteq> None \<and> unlink_error E p 0 = Some e \<and> e \<noteq> PermissionError \<longrightarrow>
      fst (safe_delete E p w) = Inr False \<and>
      trace (snd (safe_delete E p w)) = trace w @ [Unlink p, StWarning (ErrorDeleting e)] \<and>
      files (snd (safe_delete E p w)) p = files w p) \<and>
   (files w p \<noteq> None \<and> unlink_error E p 0 = None \<longrightarrow>
      fst (safe_delete E p w) = Inr True \<and>
      trace (snd (safe_delete E p w)) = trace w @ [Unlink p] \<and>
      files (snd (safe_delete E p w)) p = None)"
proof (intro conjI allI impI)
  show "\<exists>b. fst (safe_delete E p w) = Inr b" by (rule safe_delete_returns)
next
  fix q assume "q \<noteq> p"
  then show "files (snd (safe_delete E p w)) q = files w q" by (rule safe_delete_other_files)
next
  assume h: "files w p \<noteq> None \<and> unlink_error E p 0 = Some PermissionError"
  then show "fst (safe_delete E p w) = Inr (unlink_error E p 1 = None)"
    by (auto simp: safe_delete_def os_unlink_def emit_def Let_def split: option.splits)
  from h show "trace (snd (safe_delete E p w)) =
        trace w @ [Unlink p, GcCollect, Sleep 1, Unlink p] @
        (if unlink_error E p 1 = None then [] else [StWarning (CouldntDelete p)])"
    by (auto simp: safe_delete_def os_unlink_def emit_def Let_def split: option.splits)
  from h show "files (snd (safe_delete E p w)) p =
        (if unlink_error E p 1 = None then None else files w p)"
    by (auto simp: safe_delete_def os_unlink_def emit_def Let_def split: option.splits)
next
  fix e
  assume h: "files w p \<noteq> None \<and> unlink_error E p 0 = Some e \<and> e \<noteq> PermissionError"
  then show "fst (safe_delete E p w) = Inr False"
    by (auto simp: safe_delete_def os_unlink_def emit_def Let_def)
  from h show "trace (snd (safe_delete E p w)) = trace w @ [Unlink p, StWarning (ErrorDeleting e)]"
    by (auto simp: safe_delete_def os_unlink_def emit_def Let_def)
  from h show "files (snd (safe_delete E p w)) p = files w p"
    by (auto simp: safe_delete_def os_unlink_def emit_def Let_def)
next
  assume h: "files w p \<noteq> None \<and> unlink_error E p 0 = None"
  then show "fst (safe_delete E p w) = Inr True"
    by (auto simp: safe_delete_def os_unlink_def emit_def Let_def)
  from h show "trace (snd (safe_delete E p w)) = trace w @ [Unlink p]"
    by (auto simp: safe_delete_def os_unlink_def emit_def Let_def)
  from h show "files (snd (safe_delete E p w)) p = None"
    by (auto simp: safe_delete_def os_unlink_def emit_def Let_def)
qed

theorem safe_delete_swallows_witness:
  "files one_file ''chunk.mp3'' \<noteq> None \<and>
   unlink_error locked ''chunk.mp3'' 0 = Some PermissionError \<and>
   fst (safe_delete locked ''chunk.mp3'' one_file) = Inr False \<and>
   trace (snd (safe_delete locked ''chunk.mp3'' one_file)) =
     [Unlink ''chunk.mp3'', GcCollect, Sleep 1, Unlink ''chunk.mp3'',
      StWarning (CouldntDelete ''chunk.mp3'')] \<and>
   files (snd (safe_delete locked ''chunk.mp3'' one_file)) ''chunk.mp3'' = Some (muted 120000)"
  using safe_delete_swallows [of locked "''chunk.mp3''" one_file]
  by (simp add: one_file_def locked_def studio_def)

section \<open>Claims about \<^verbatim>\<open>split_audio\<close>\<close>

text \<open>
  C1. For every source that decodes to \<open>D\<close> ms of sound and every chunk size
  \<open>C = chunk_minutes * 60000\<close> ms with \<open>chunk_minutes > 0\<close>, \<^verbatim>\<open>split_audio\<close> returns,
  without touching the world, exactly \<open>\<lceil>D / C\<rceil>\<close> chunks. Chunk \<open>k\<close> is the window
  of the sound that starts at \<open>k * C\<close> and is at most \<open>C\<close> long; put end to end in
  this order the chunks give the sound back, so the windows are consecutive and do not
  overlap. Every chunk but the last lasts \<open>C\<close>; the last lasts \<open>D mod C\<close> when that
  is not zero and \<open>C\<close> otherwise, so nothing is padded. With \<open>D = 0\<close> there is no chunk.
\<close>

theorem split_audio_partition:
  assumes "from_file E file_path = Inr a" and "0 < chunk_minutes"
  shows "\<exists>chunks. split_audio E file_path chunk_minutes w = (Inr chunks, w) \<and>
    (let C = nat (chunk_minutes * 60 * 1000); D = length a in
       int (length chunks) = \<lceil>real D / real C\<rceil> \<and>
       (\<forall>k < length chunks.
          chunks ! k = take C (drop (k * C) a) \<and>
          length (chunks ! k) =
            (if k + 1 < length chunks then C else if D mod C = 0 then C else D mod C)) \<and>
       concat chunks = a \<and>
       (D = 0 \<longrightarrow> chunks = []))"
proof -
  let ?C = "nat (chunk_minutes * 60 * 1000)" and ?D = "length a"
  let ?n = "chunk_count ?D ?C"
  let ?chunks = "map (\<lambda>k. take ?C (drop (k * ?C) a)) [0..<?n]"
  have C: "0 < ?C" using assms(2) by auto
  have eq: "split_audio E file_path chunk_minutes w = (Inr ?chunks, w)"
    by (rule split_audio_eq [OF assms])
  have len: "int (length ?chunks) = \<lceil>real ?D / real ?C\<rceil>"
    using chunk_count_ceiling [OF C, of ?D] by simp
  have win: "\<forall>k < length ?chunks.
          ?chunks ! k = take ?C (drop (k * ?C) a) \<and>
          length (?chunks ! k) =
            (if k + 1 < length ?chunks then ?C else if ?D mod ?C = 0 then ?C else ?D mod ?C)"
  proof (intro allI impI conjI)
    fix k assume k: "k < length ?chunks"
    then have kn: "k < ?n" by simp
    show nth: "?chunks ! k = take ?C (drop (k * ?C) a)" using kn by simp
    have kD: "k * ?C < ?D" using chunk_count_lt [OF C, of k ?D] kn by simp
    show "length (?chunks ! k) =
            (if k + 1 < length ?chunks then ?C else if ?D mod ?C = 0 then ?C else ?D mod ?C)"
    proof (cases "k + 1 < ?n")
      case True
      then have "(k + 1) * ?C < ?D" using chunk_count_lt [OF C, of "k + 1" ?D] by simp
      then have "?C \<le> ?D - k * ?C" by simp
      then show ?thesis using True nth by simp
    next
      case False
      then have k1: "k = ?n - 1" using kn by simp
      have "0 < ?D" using kD by linarith
      then have "?D - k * ?C = (if ?D mod ?C = 0 then ?C else ?D mod ?C)"
        unfolding k1 by (rule last_window [OF C])
      moreover have "?D mod ?C \<le> ?C" using C by (simp add: less_imp_le)
      ultimately show ?thesis using False nth by (simp add: min_def)
    qed
  qed
  have "\<not> ?n * ?C < ?D" using chunk_count_lt [OF C, of ?n ?D] by simp
  then have cat: "concat ?chunks = a" by (simp only: concat_windows) simp
  have emp: "?D = 0 \<longrightarrow> ?chunks = []" using C by (simp add: chunk_count_def)
  show ?thesis
    unfolding Let_def using eq len win cat emp by blast
qed

theorem split_audio_partition_witness:
  "from_file studio ''talk.mp3'' = Inr (muted 150000) \<and> (0::int) < 2 \<and>
   split_audio studio ''talk.mp3'' 2 blank = (Inr [muted 120000, muted 30000], blank)"
proof -
  have h: "from_file studio ''talk.mp3'' = Inr (muted 150000)" by (simp add: studio_def)
  obtain chunks where c: "split_audio studio ''talk.mp3'' 2 blank = (Inr chunks, blank)"
    and n: "int (length chunks) = \<lceil>real (length (muted 150000)) / real (nat (2 * 60 * 1000))\<rceil>"
    and k: "\<forall>k < length chunks. chunks ! k = take (nat (2 * 60 * 1000)) (drop (k * nat (2 * 60 * 1000)) (muted 150000))"
    using split_audio_partition [OF h, of 2 blank] unfolding Let_def by auto
  have "length chunks = 2" using n by (simp add: muted_def)
  then obtain x y where xy: "chunks = [x, y]"
    by (cases chunks; cases "tl chunks"; cases "tl (tl chunks)") auto
  have "x = muted 120000" "y = muted 30000" using k xy by (auto simp: muted_def All_less_Suc)
  then show ?thesis using c xy h by simp
qed

section \<open>Claims about \<^verbatim>\<open>process_long_audio\<close> and \<^verbatim>\<open>transcribe_chunk\<close>\<close>

text \<open>
  C2, as the claim states it, fails: the sample recording splits into two chunks, whose
  transcription results are \<open>hello\<close> and \<open>world\<close>, but when the export of the second
  chunk raises, the transcript returned is the empty string and not the two results
  joined by the paragraph separator.
\<close>

theorem process_long_audio_joins_counterexample:
  "fst (split_audio (encoder_fails_on ''tmp1.mp3'') ''talk.mp3'' 2 blank) =
     Inr [muted 120000, muted 30000] \<and>
   chunk_text (encoder_fails_on ''tmp1.mp3'') ''tmp0.mp3'' (muted 120000) = ''hello'' \<and>
   chunk_text (encoder_fails_on ''tmp1.mp3'') ''tmp1.mp3'' (muted 30000) = ''world'' \<and>
   export_error (encoder_fails_on ''tmp1.mp3'') ''tmp1.mp3'' = Some (OtherError ''encoder'') \<and>
   fst (process_long_audio (encoder_fails_on ''tmp1.mp3'') ''talk.mp3'' blank) = Inr [] \<and>
   fst (process_long_audio (encoder_fails_on ''tmp1.mp3'') ''talk.mp3'' blank) \<noteq>
     Inr (join paragraph_sep [''hello'', ''world''])"
proof -
  have t: "chunk_text (encoder_fails_on ''tmp1.mp3'') ''tmp0.mp3'' (muted 120000) = ''hello''"
      "chunk_text (encoder_fails_on ''tmp1.mp3'') ''tmp1.mp3'' (muted 30000) = ''world''"
    by (simp_all add: chunk_text_def transcribe_chunk_def encoder_fails_on_def studio_def
        muted_def submit_def range_from.simps)
  have x: "export_error (encoder_fails_on ''tmp1.mp3'') ''tmp1.mp3'' = Some (OtherError ''encoder'')"
    by (simp add: encoder_fails_on_def studio_def)
  have "fst (process_long_audio (encoder_fails_on ''tmp1.mp3'') ''talk.mp3'' blank) = Inr []"
    using encoder_fails_run(1)
    by (cases "process_body (encoder_fails_on ''tmp1.mp3'') ''talk.mp3'' blank")
       (simp add: process_long_audio_def)
  then show ?thesis using t x by (simp add: encoder_fails_chunks)
qed

text \<open>
  C2, amended. For every source that splits into \<open>N \<ge> 1\<close> chunks, on every run where
  each chunk gets its temp file and its export (by \<open>process_body_raises_iff\<close>, the runs
  on which no exception leaves the per-chunk loop), \<^verbatim>\<open>process_long_audio\<close> returns the
  \<open>N\<close> per-chunk transcription results joined by the paragraph separator, in the order
  of the chunks: there are exactly \<open>N\<close> paragraphs, paragraph \<open>i\<close> is what
  \<^verbatim>\<open>transcribe_chunk\<close> returns for the file that holds chunk \<open>i\<close>, and the transcript is
  as long as the paragraphs plus \<open>N - 1\<close> separators of two characters.
\<close>

theorem process_long_audio_joins:
  assumes "fst (split_audio E fp 2 w) = Inr chunks" and "chunks \<noteq> []"
    and "\<forall>i < length chunks. new_temp E i = Inr (tp i) \<and> export_error E (tp i) = None"
  shows "\<exists>paragraphs.
           fst (process_long_audio E fp w) = Inr (join paragraph_sep paragraphs) \<and>
           length paragraphs = length chunks \<and>
           (\<forall>i < length chunks. paragraphs ! i = chunk_text E (tp i) (chunks ! i)) \<and>
           length (join paragraph_sep paragraphs) =
             sum_list (map length paragraphs) + 2 * (length chunks - 1)"
proof -
  let ?ps = "map (\<lambda>i. chunk_text E (tp i) (chunks ! i)) [0..<length chunks]"
  have "fst (process_long_audio E fp w) = Inr (join paragraph_sep ?ps)"
    by (rule process_long_audio_ok [OF assms])
  moreover have "length ?ps = length chunks" by simp
  moreover have "\<forall>i < length chunks. ?ps ! i = chunk_text E (tp i) (chunks ! i)" by simp
  moreover have "length (join paragraph_sep ?ps) = sum_list (map length ?ps) + 2 * (length chunks - 1)"
    by (simp add: join_length paragraph_sep_def)
  ultimately show ?thesis by blast
qed

theorem process_long_audio_joins_witness:
  "fst (split_audio studio ''talk.mp3'' 2 blank) = Inr [muted 120000, muted 30000] \<and>
   [muted 120000, muted 30000] \<noteq> [] \<and>
   new_temp studio 0 = Inr ''tmp0.mp3'' \<and> export_error studio ''tmp0.mp3'' = None \<and>
   new_temp studio 1 = Inr ''tmp1.mp3'' \<and> export_error studio ''tmp1.mp3'' = None \<and>
   fst (process_long_audio studio ''talk.mp3'' blank) = Inr (''hello'' @ paragraph_sep @ ''world'')"
proof -
  have h1: "fst (split_audio studio ''talk.mp3'' 2 blank) = Inr [muted 120000, muted 30000]"
    by (simp add: studio_chunks studio_def)
  have h2: "[muted 120000, muted 30000] \<noteq> []" by simp
  have h3: "\<forall>i < length [muted 120000, muted 30000].
      new_temp studio i = Inr (chunk_path i) \<and> export_error studio (chunk_path i) = None"
    by (simp add: studio_def)
  obtain ps where r: "fst (process_long_audio studio ''talk.mp3'' blank) = Inr (join paragraph_sep ps)"
    and n: "length ps = length [muted 120000, muted 30000]"
    and p: "\<forall>i < length [muted 120000, muted 30000].
              ps ! i = chunk_text studio (chunk_path i) ([muted 120000, muted 30000] ! i)"
    using process_long_audio_joins [OF h1 h2 h3] by blast
  have "ps ! 0 = ''hello''" "ps ! 1 = ''world''" using p by (simp_all add: chunk_text_studio)
  moreover have "ps = [ps ! 0, ps ! 1]" using n by (intro two_elems) simp
  ultimately have "ps = [''hello'', ''world'']" by simp
  then show ?thesis using r h1 by (simp add: studio_def chunk_path_def)
qed







text \<open>
  C4, as the claim states it, fails: when the export of the first of two chunks raises,
  the job does not go on to the second chunk. Nothing is created or sent for it, and the
  transcript is the empty string, not an empty paragraph followed by the second chunk's
  text.
\<close>

theorem export_failure_counterexample:
  "export_error (encoder_fails_on ''tmp0.mp3'') (chunk_path 0) = Some (OtherError ''encoder'') \<and>
   export_error (encoder_fails_on ''tmp0.mp3'') (chunk_path 1) = None \<and>
   chunk_text (encoder_fails_on ''tmp0.mp3'') (chunk_path 1) (muted 30000) = ''world'' \<and>
   fst (process_long_audio (encoder_fails_on ''tmp0.mp3'') ''talk.mp3'' blank) = Inr [] \<and>
   fst (process_long_audio (encoder_fails_on ''tmp0.mp3'') ''talk.mp3'' blank) \<noteq>
     Inr (join paragraph_sep ['''', ''world'']) \<and>
   trace (snd (process_long_audio (encoder_fails_on ''tmp0.mp3'') ''talk.mp3'' blank)) =
     [NewProgressBar, NewStatusText, SetProgress 1 2, StatusText 1 2,
      TempFile ''tmp0.mp3'', Export ''tmp0.mp3'',
      StError (ProcessingError (OtherError ''encoder''))]"
proof -
  have "chunk_text (encoder_fails_on ''tmp0.mp3'') (chunk_path 1) (muted 30000) = ''world''"
    by (simp add: chunk_text_def transcribe_chunk_def encoder_fails_on_def studio_def muted_def
        submit_def range_from.simps)
  moreover have "process_long_audio (encoder_fails_on ''tmp0.mp3'') ''talk.mp3'' blank =
     (Inr [], \<lparr>files = [''tmp0.mp3'' \<mapsto> []],
        trace = [NewProgressBar, NewStatusText, SetProgress 1 2, StatusText 1 2,
      TempFile ''tmp0.mp3'', Export ''tmp0.mp3'',
      StError (ProcessingError (OtherError ''encoder''))]\<rparr>)"
    unfolding process_long_audio_def process_body_def encoder_fails_chunks
    by (simp add: py_enumerate_def named_temporary_file_def export_def emit_def blank_def Let_def
        encoder_fails_on_def studio_def chunk_path_def)
  ultimately show ?thesis
    by (simp add: encoder_fails_on_def studio_def chunk_path_def paragraph_sep_def)
qed

text \<open>
  C4, amended. If the export of chunk \<open>i\<close> to its temp file raises (the chunks before
  it having got their temp file and their export), the exception leaves the loop and is
  caught by the handler of \<^verbatim>\<open>process_long_audio\<close>: the last effect is the report of a
  processing error with that exception, the transcript returned is the empty string, and
  temp files were created for the chunks \<open>0, \<dots>, i\<close> only, so no later chunk is
  processed.
\<close>

theorem export_failure_aborts_job:
  assumes "fst (split_audio E fp 2 w) = Inr chunks" and "i < length chunks"
    and "\<forall>k < i. new_temp E k = Inr (tp k) \<and> export_error E (tp k) = None"
    and "new_temp E i = Inr (tp i)" and "export_error E (tp i) = Some e"
  shows "fst (process_long_audio E fp w) = Inr [] \<and>
         last (trace (snd (process_long_audio E fp w))) = StError (ProcessingError e) \<and>
         temp_files_made (trace (snd (process_long_audio E fp w))) =
           temp_files_made (trace w) @ map tp [0..<Suc i]"
proof -
  obtain w3 where "process_body E fp w = (Inl e, w3)"
    and "temp_files_made (trace w3) = temp_files_made (trace w) @ map tp [0..<Suc i]"
    using process_body_export_raises [OF assms] by blast
  then show ?thesis by (simp add: process_long_audio_def)
qed

theorem export_failure_aborts_job_witness:
  "fst (split_audio (encoder_fails_on ''tmp1.mp3'') ''talk.mp3'' 2 blank) = Inr [muted 120000, muted 30000] \<and>
   (1::nat) < length [muted 120000, muted 30000] \<and>
   new_temp (encoder_fails_on ''tmp1.mp3'') 0 = Inr ''tmp0.mp3'' \<and>
   export_error (encoder_fails_on ''tmp1.mp3'') ''tmp0.mp3'' = None \<and>
   new_temp (encoder_fails_on ''tmp1.mp3'') 1 = Inr ''tmp1.mp3'' \<and>
   export_error (encoder_fails_on ''tmp1.mp3'') ''tmp1.mp3'' = Some (OtherError ''encoder'') \<and>
   fst (process_long_audio (encoder_fails_on ''tmp1.mp3'') ''talk.mp3'' blank) = Inr [] \<and>
   last (trace (snd (process_long_audio (encoder_fails_on ''tmp1.mp3'') ''talk.mp3'' blank))) =
     StError (ProcessingError (OtherError ''encoder'')) \<and>
   temp_files_made (trace (snd (process_long_audio (encoder_fails_on ''tmp1.mp3'') ''talk.mp3'' blank))) =
     [''tmp0.mp3'', ''tmp1.mp3'']"
proof -
  have h1: "fst (split_audio (encoder_fails_on ''tmp1.mp3'') ''talk.mp3'' 2 blank) = Inr [muted 120000, muted 30000]"
    by (simp add: encoder_fails_chunks)
  have h2: "(1::nat) < length [muted 120000, muted 30000]" by simp
  have h3: "\<forall>k < 1. new_temp (encoder_fails_on ''tmp1.mp3'') k = Inr (chunk_path k) \<and>
             export_error (encoder_fails_on ''tmp1.mp3'') (chunk_path k) = None"
    by (simp add: encoder_fails_on_def studio_def chunk_path_def)
  have h4: "new_temp (encoder_fails_on ''tmp1.mp3'') 1 = Inr (chunk_path 1)"
    by (simp add: encoder_fails_on_def studio_def)
  have h5: "export_error (encoder_fails_on ''tmp1.mp3'') (chunk_path 1) = Some (OtherError ''encoder'')"
    by (simp add: encoder_fails_on_def studio_def chunk_path_def)
  show ?thesis
    using export_failure_aborts_job [OF h1 h2 h3 h4 h5] h1
    by (simp add: blank_def chunk_path_def upt_rec encoder_fails_on_def studio_def)
qed

text \<open>
  C6. For every input, if the \<^verbatim>\<open>try\<close> block of \<^verbatim>\<open>process_long_audio\<close> raises an
  exception, then it was raised by the per-chunk loop, and \<^verbatim>\<open>process_long_audio\<close>
  raises nothing: it reports a processing error with that exception, as its last effect,
  and returns the empty string, whatever the loop had already put in the transcript.
\<close>

theorem loop_exception_discards_transcript:
  assumes "fst (process_body E fp w) = Inl e"
  shows "process_long_audio E fp w =
           (Inr [], emit (StError (ProcessingError e)) (snd (process_body E fp w))) \<and>
         (\<exists>chunks. fst (split_audio E fp 2 w) = Inr chunks \<and> chunks \<noteq> [] \<and>
            fst (chunk_loop E (length chunks) (py_enumerate chunks) []
                   (emit NewStatusText (emit NewProgressBar (snd (split_audio E fp 2 w))))) = Inl e)"
proof
  show "process_long_audio E fp w =
           (Inr [], emit (StError (ProcessingError e)) (snd (process_body E fp w)))"
    using assms by (cases "process_body E fp w") (simp add: process_long_audio_def)
  show "\<exists>chunks. fst (split_audio E fp 2 w) = Inr chunks \<and> chunks \<noteq> [] \<and>
            fst (chunk_loop E (length chunks) (py_enumerate chunks) []
                   (emit NewStatusText (emit NewProgressBar (snd (split_audio E fp 2 w))))) = Inl e"
    by (rule process_body_raises_in_loop [OF assms])
qed

theorem loop_exception_discards_transcript_witness:
  "fst (process_body (encoder_fails_on ''tmp1.mp3'') ''talk.mp3'' blank) = Inl (OtherError ''encoder'') \<and>
   fst (process_long_audio (encoder_fails_on ''tmp1.mp3'') ''talk.mp3'' blank) = Inr [] \<and>
   trace (snd (process_long_audio (encoder_fails_on ''tmp1.mp3'') ''talk.mp3'' blank)) =
     [NewProgressBar, NewStatusText,
      SetProgress 1 2, StatusText 1 2, TempFile ''tmp0.mp3'', Export ''tmp0.mp3'',
      Submit ''tmp0.mp3'' 0, Unlink ''tmp0.mp3'',
      SetProgress 2 2, StatusText 2 2, TempFile ''tmp1.mp3'', Export ''tmp1.mp3'',
      StError (ProcessingError (OtherError ''encoder''))]"
  using loop_exception_discards_transcript [OF encoder_fails_run(1)]
  by (simp add: encoder_fails_run)

text \<open>
  C7. For every source path that fails to load, and for every source that decodes to
  no sound at all, \<^verbatim>\<open>split_audio\<close> returns the empty list and raises nothing, for every
  chunk size; \<^verbatim>\<open>process_long_audio\<close> returns the empty string by its early
  \<^verbatim>\<open>return\<close>. The disk is untouched, so no temp file is created; nothing is sent to the
  service; no processing error is reported. The only effect is the error that
  \<^verbatim>\<open>split_audio\<close> shows when the load fails.
\<close>

theorem nothing_to_transcribe:
  assumes "from_file E fp = Inl e \<or> from_file E fp = Inr []"
  shows "fst (split_audio E fp chunk_minutes w) = Inr [] \<and>
         process_long_audio E fp w =
           (Inr [], case from_file E fp of Inl e \<Rightarrow> emit (StError (ErrorSplitting e)) w | Inr a \<Rightarrow> w)"
proof -
  have r: "range_from 0 0 (chunk_minutes * 60 * 1000) = []"
    by (subst range_from.simps) simp
  have s: "fst (split_audio E fp chunk_minutes w) = Inr []"
    using assms r by (auto simp: split_audio_def py_range_def Let_def)
  have r2: "range_from 0 0 120000 = []" by (subst range_from.simps) simp
  have "split_audio E fp 2 w =
          (Inr [], case from_file E fp of Inl e \<Rightarrow> emit (StError (ErrorSplitting e)) w | Inr a \<Rightarrow> w)"
    using assms r2 by (auto simp: split_audio_def py_range_def Let_def)
  then have "process_long_audio E fp w =
           (Inr [], case from_file E fp of Inl e \<Rightarrow> emit (StError (ErrorSplitting e)) w | Inr a \<Rightarrow> w)"
    by (simp add: process_long_audio_def process_body_def)
  then show ?thesis using s by simp
qed

theorem nothing_to_transcribe_witness:
  "from_file studio ''missing.mp3'' = Inl FileNotFoundError \<and>
   fst (split_audio studio ''missing.mp3'' 2 blank) = Inr [] \<and>
   fst (process_long_audio studio ''missing.mp3'' blank) = Inr [] \<and>
   trace (snd (process_long_audio studio ''missing.mp3'' blank)) =
     [StError (ErrorSplitting FileNotFoundError)] \<and>
   files (snd (process_long_audio studio ''missing.mp3'' blank)) = Map.empty \<and>
   from_file studio ''empty.mp3'' = Inr [] \<and>
   fst (split_audio studio ''empty.mp3'' 2 blank) = Inr [] \<and>
   process_long_audio studio ''empty.mp3'' blank = (Inr [], blank)"
  using nothing_to_transcribe [of studio "''missing.mp3''" FileNotFoundError 2 blank]
    nothing_to_transcribe [of studio "''empty.mp3''" FileNotFoundError 2 blank]
  by (simp add: studio_def blank_def)

text \<open>
  C9 does not hold of the code on a run where an export raises. In the sample run the
  encoder fails on the temp file of the second chunk. The first temp file is created,
  used and unlinked before the second is created. The second is created, the export
  raises, and the run ends with the processing error: no unlink is tried on the second
  file, no warning names it, and it is still on disk, empty, when the job returns.
\<close>

theorem failed_export_leaks_temp_file:
  "export_error (encoder_fails_on ''tmp1.mp3'') ''tmp1.mp3'' = Some (OtherError ''encoder'') \<and>
   fst (process_long_audio (encoder_fails_on ''tmp1.mp3'') ''talk.mp3'' blank) = Inr [] \<and>
   trace (snd (process_long_audio (encoder_fails_on ''tmp1.mp3'') ''talk.mp3'' blank)) =
     [NewProgressBar, NewStatusText,
      SetProgress 1 2, StatusText 1 2, TempFile ''tmp0.mp3'', Export ''tmp0.mp3'',
      Submit ''tmp0.mp3'' 0, Unlink ''tmp0.mp3'',
      SetProgress 2 2, StatusText 2 2, TempFile ''tmp1.mp3'', Export ''tmp1.mp3'',
      StError (ProcessingError (OtherError ''encoder''))] \<and>
   files (snd (process_long_audio (encoder_fails_on ''tmp1.mp3'') ''talk.mp3'' blank)) ''tmp0.mp3'' = None \<and>
   files (snd (process_long_audio (encoder_fails_on ''tmp1.mp3'') ''talk.mp3'' blank)) ''tmp1.mp3'' = Some []"
proof -
  have "process_long_audio (encoder_fails_on ''tmp1.mp3'') ''talk.mp3'' blank =
          (Inr [], emit (StError (ProcessingError (OtherError ''encoder'')))
                     (snd (process_body (encoder_fails_on ''tmp1.mp3'') ''talk.mp3'' blank)))"
    using encoder_fails_run(1)
    by (cases "process_body (encoder_fails_on ''tmp1.mp3'') ''talk.mp3'' blank") (simp add: process_long_audio_def)
  then show ?thesis
    by (simp add: encoder_fails_run) (simp add: encoder_fails_on_def studio_def chunk_path_def)
qed

end
